theory Spec2Isabelle
  imports Complex_Main
begin

section \<open>JavaScript numbers\<close>

text \<open>
  The worker and the loop editor compute with JavaScript numbers, which are IEEE 754
  doubles: a finite double (a real number of a particular form), one of the two
  infinities, or NaN. The control flow of the worker depends on the special values
  (\<^verbatim>\<open>NaN > 0\<close> is false), and the loop editor's minimum loop length depends on the
  rounding of \<^verbatim>\<open>end - 0.1\<close>, so both are modelled. The sign of a zero is not tracked.
\<close>

datatype jsnum = Fin real | PInf | NInf | NaN

subsection \<open>Rounding to the nearest double\<close>

text \<open>Round to the nearest integer, a tie to the even one.\<close>

definition roundHalfEven :: "real \<Rightarrow> int" where
  "roundHalfEven y =
     (let f = \<lfloor>y\<rfloor>; d = y - of_int f
      in if d < 1/2 then f else if 1/2 < d then f + 1 else if even f then f else f + 1)"

text \<open>
  The doubles around a real number \<open>x\<close> with \<open>2 ^ e \<le> \<bar>x\<bar> < 2 ^ (e + 1)\<close> are the
  multiples of \<open>2 ^ (e - 52)\<close> (53 significant bits); below \<open>2 ^ (- 1022)\<close> they are the
  multiples of \<open>2 ^ (- 1074)\<close> (the subnormal numbers). \<open>binade x\<close> is that exponent
  \<open>e\<close>, \<open>quantum x\<close> the spacing, and \<open>fl x\<close> the nearest double, a tie going to the one
  with the even significand: the result of rounding before the test for overflow.
\<close>

definition binade :: "real \<Rightarrow> int" where
  "binade x = max \<lfloor>log 2 \<bar>x\<bar>\<rfloor> (- 1022)"

definition quantum :: "real \<Rightarrow> real" where
  "quantum x = 2 powr (of_int (binade x) - 52)"

definition fl :: "real \<Rightarrow> real" where
  "fl x = (if x = 0 then 0 else quantum x * of_int (roundHalfEven (x / quantum x)))"

text \<open>The double that an operation with the exact result \<open>x\<close> returns: a rounded value
  of magnitude \<open>2 ^ 1024\<close> or more is an infinity.\<close>

definition dbl :: "real \<Rightarrow> jsnum" where
  "dbl x =
     (let y = fl x
      in if 2 ^ 1024 \<le> y then PInf else if y \<le> - (2 ^ 1024) then NInf else Fin y)"

text \<open>A real number that is a finite double.\<close>

definition isDouble :: "real \<Rightarrow> bool" where
  "isDouble x \<longleftrightarrow> fl x = x \<and> \<bar>x\<bar> < 2 ^ 1024"

subsection \<open>Arithmetic\<close>


fun js_add :: "jsnum \<Rightarrow> jsnum \<Rightarrow> jsnum" where
  "js_add NaN _ = NaN"
| "js_add _ NaN = NaN"
| "js_add (Fin a) (Fin b) = dbl (a + b)"
| "js_add (Fin a) PInf = PInf"
| "js_add (Fin a) NInf = NInf"
| "js_add PInf (Fin b) = PInf"
| "js_add NInf (Fin b) = NInf"
| "js_add PInf PInf = PInf"
| "js_add NInf NInf = NInf"
| "js_add PInf NInf = NaN"
| "js_add NInf PInf = NaN"


fun js_mul :: "jsnum \<Rightarrow> jsnum \<Rightarrow> jsnum" where
  "js_mul NaN _ = NaN"
| "js_mul _ NaN = NaN"
| "js_mul (Fin a) (Fin b) = dbl (a * b)"
| "js_mul (Fin a) PInf = (if a = 0 then NaN else if 0 < a then PInf else NInf)"
| "js_mul (Fin a) NInf = (if a = 0 then NaN else if 0 < a then NInf else PInf)"
| "js_mul PInf (Fin b) = (if b = 0 then NaN else if 0 < b then PInf else NInf)"
| "js_mul NInf (Fin b) = (if b = 0 then NaN else if 0 < b then NInf else PInf)"
| "js_mul PInf PInf = PInf"
| "js_mul NInf NInf = PInf"
| "js_mul PInf NInf = NInf"
| "js_mul NInf PInf = NInf"

text \<open>\<^verbatim>\<open>0 / 0\<close> is NaN, \<^verbatim>\<open>x / 0\<close> an infinity (a zero divisor is taken as \<open>+0\<close>).\<close>

fun js_divide :: "jsnum \<Rightarrow> jsnum \<Rightarrow> jsnum" where
  "js_divide NaN _ = NaN"
| "js_divide _ NaN = NaN"
| "js_divide (Fin a) (Fin b) =
     (if b = 0 then (if a = 0 then NaN else if 0 < a then PInf else NInf)
      else dbl (a / b))"
| "js_divide (Fin a) PInf = Fin 0"
| "js_divide (Fin a) NInf = Fin 0"
| "js_divide PInf (Fin b) = (if 0 \<le> b then PInf else NInf)"
| "js_divide NInf (Fin b) = (if 0 \<le> b then NInf else PInf)"
| "js_divide PInf PInf = NaN"
| "js_divide PInf NInf = NaN"
| "js_divide NInf PInf = NaN"
| "js_divide NInf NInf = NaN"

text \<open>\<^verbatim>\<open>Math.sqrt\<close>, correctly rounded.\<close>

fun Math_sqrt :: "jsnum \<Rightarrow> jsnum" where
  "Math_sqrt (Fin x) = (if x < 0 then NaN else dbl (sqrt x))"
| "Math_sqrt PInf = PInf"
| "Math_sqrt NInf = NaN"
| "Math_sqrt NaN = NaN"

text \<open>\<^verbatim>\<open>Math.max(a, b)\<close> and \<^verbatim>\<open>Math.min(a, b)\<close>: NaN as soon as one argument is NaN.\<close>

fun js_max2 :: "jsnum \<Rightarrow> jsnum \<Rightarrow> jsnum" where
  "js_max2 NaN _ = NaN"
| "js_max2 _ NaN = NaN"
| "js_max2 PInf _ = PInf"
| "js_max2 _ PInf = PInf"
| "js_max2 NInf b = b"
| "js_max2 a NInf = a"
| "js_max2 (Fin a) (Fin b) = Fin (max a b)"


text \<open>\<^verbatim>\<open>Math.max\<close> of a list of arguments: \<^verbatim>\<open>-Infinity\<close> for no argument.\<close>

fun Math_max :: "jsnum list \<Rightarrow> jsnum" where
  "Math_max [] = NInf"
| "Math_max (v # vs) = js_max2 v (Math_max vs)"

text \<open>The tests \<^verbatim>\<open>a < b\<close> and \<^verbatim>\<open>isNaN(a)\<close>; \<^verbatim>\<open>a > b\<close> is \<open>js_less b a\<close>.\<close>

fun js_less :: "jsnum \<Rightarrow> jsnum \<Rightarrow> bool" where
  "js_less NaN _ = False"
| "js_less _ NaN = False"
| "js_less (Fin a) (Fin b) = (a < b)"
| "js_less (Fin a) PInf = True"
| "js_less (Fin a) NInf = False"
| "js_less PInf _ = False"
| "js_less NInf (Fin b) = True"
| "js_less NInf PInf = True"
| "js_less NInf NInf = False"


section \<open>The waveform worker (waveformWorker.ts)\<close>

text \<open>
  \<^verbatim>\<open>Math.max(...waveformData)\<close> passes every element as an argument of one call. An
  engine accepts only so many arguments and throws a \<^verbatim>\<open>RangeError\<close> beyond; the
  limit and the message of the error belong to the engine, not to the worker, and are
  parameters of the model.
\<close>

record Engine =
  maxArguments :: nat
  rangeErrorMessage :: string

text \<open>JavaScriptCore, whose limit is 65536 arguments.\<close>

definition javaScriptCore :: Engine where
  "javaScriptCore =
     \<lparr>maxArguments = 65536, rangeErrorMessage = ''Maximum call stack size exceeded.''\<rparr>"

record WaveformResponse =
  waveformData :: "jsnum list"
  error :: "string option"

text \<open>
  \<open>channelData\<close> is a \<^verbatim>\<open>Float32Array\<close>: its elements are finite numbers, infinities or
  NaN. The inner loop
  \<^verbatim>\<open>for (let j = start; j < end; j++) sum += channelData[j] * channelData[j]\<close>: every
  index it reads is below \<^verbatim>\<open>channelData.length\<close>, because \<^verbatim>\<open>end\<close> is capped by it.
\<close>

function sumLoop :: "jsnum list \<Rightarrow> nat \<Rightarrow> nat \<Rightarrow> jsnum \<Rightarrow> jsnum" where
  "sumLoop channelData j end' sumAcc =
     (if j < end'
      then sumLoop channelData (Suc j) end'
             (js_add sumAcc (js_mul (channelData ! j) (channelData ! j)))
      else sumAcc)"
  by pat_completeness auto
termination
  by (relation "measure (\<lambda>(channelData, j, end', sumAcc). end' - j)") auto

text \<open>One pass of the outer loop body: the RMS of chunk \<open>i\<close>. \<^verbatim>\<open>end - start\<close> is a
  difference of two array indices and exact.\<close>

definition chunkRms :: "jsnum list \<Rightarrow> nat \<Rightarrow> nat \<Rightarrow> jsnum" where
  "chunkRms channelData samplesPerPoint i =
     (let start = i * samplesPerPoint;
          end' = min (start + samplesPerPoint) (length channelData);
          sumAcc = sumLoop channelData start end' (Fin 0)
      in Math_sqrt (js_divide sumAcc (Fin (real (end' - start)))))"

text \<open>The outer loop \<^verbatim>\<open>for (let i = 0; i < targetPoints; i++) { ...; waveformData.push(rms) }\<close>.\<close>

function pushLoop :: "jsnum list \<Rightarrow> nat \<Rightarrow> nat \<Rightarrow> nat \<Rightarrow> jsnum list \<Rightarrow> jsnum list" where
  "pushLoop channelData samplesPerPoint targetPoints i acc =
     (if i < targetPoints
      then pushLoop channelData samplesPerPoint targetPoints (Suc i)
             (acc @ [chunkRms channelData samplesPerPoint i])
      else acc)"
  by pat_completeness auto
termination
  by (relation "measure (\<lambda>(channelData, samplesPerPoint, targetPoints, i, acc). targetPoints - i)") auto

declare sumLoop.simps [simp del] pushLoop.simps [simp del]

text \<open>The values before normalisation. \<^verbatim>\<open>Math.floor(channelData.length / targetPoints)\<close>
  is the natural-number quotient for \<open>targetPoints > 0\<close>; for \<open>targetPoints = 0\<close>
  the loop body never runs and the quotient is not used.\<close>

definition rmsValues :: "jsnum list \<Rightarrow> nat \<Rightarrow> jsnum list" where
  "rmsValues channelData targetPoints =
     (let samplesPerPoint = length channelData div targetPoints
      in pushLoop channelData samplesPerPoint targetPoints 0 [])"

text \<open>\<^verbatim>\<open>Math.max(...xs)\<close>: \<open>Inl\<close> is the message of the error thrown.\<close>

definition Math_max_spread :: "Engine \<Rightarrow> jsnum list \<Rightarrow> string + jsnum" where
  "Math_max_spread engine xs =
     (if maxArguments engine < length xs then Inl (rangeErrorMessage engine)
      else Inr (Math_max xs))"

text \<open>The body of the \<^verbatim>\<open>try\<close> block up to the response: the normalised data, or the
  message of the error thrown.\<close>

definition tryBody :: "Engine \<Rightarrow> jsnum list \<Rightarrow> nat \<Rightarrow> string + jsnum list" where
  "tryBody engine channelData targetPoints =
     (let waveformData = rmsValues channelData targetPoints
      in case Math_max_spread engine waveformData of
           Inl message \<Rightarrow> Inl message
         | Inr maxAmplitude \<Rightarrow>
             Inr (if js_less (Fin 0) maxAmplitude
                  then map (\<lambda>val. js_divide val maxAmplitude) waveformData
                  else waveformData))"

text \<open>The message handler: the response posted back for a request, by the \<^verbatim>\<open>try\<close>
  block or by the \<^verbatim>\<open>catch\<close> block.\<close>

definition onmessage :: "Engine \<Rightarrow> jsnum list \<Rightarrow> nat \<Rightarrow> WaveformResponse" where
  "onmessage engine channelData targetPoints =
     (case tryBody engine channelData targetPoints of
        Inr normalizedData \<Rightarrow> \<lparr>waveformData = normalizedData, error = None\<rparr>
      | Inl message \<Rightarrow> \<lparr>waveformData = [], error = Some message\<rparr>)"

text \<open>The shape of a window value: a finite number that is not negative, \<^verbatim>\<open>Infinity\<close>
  or NaN.\<close>

definition rmsShape :: "jsnum \<Rightarrow> bool" where
  "rmsShape v = (case v of Fin r \<Rightarrow> 0 \<le> r | PInf \<Rightarrow> True | NaN \<Rightarrow> True | NInf \<Rightarrow> False)"

section \<open>The loop editor (LoopEditor.tsx)\<close>

text \<open>
  Loop points are a pair of times in seconds; the field \<^verbatim>\<open>end\<close> is written \<open>end'\<close>.
  The loop editor and the playback provider each declare the interface. The editor
  computes the points with JavaScript numbers; the provider's functions are modelled
  over the real numbers.
\<close>

record 'n LoopPoints =
  start :: 'n
  end' :: 'n
















section \<open>The playback scheduler (AudioPlaybackProvider)\<close>

subsection \<open>The platform objects the provider holds\<close>

text \<open>
  An \<^verbatim>\<open>AudioContext\<close> is known by its state, an \<^verbatim>\<open>AudioBufferSourceNode\<close> by the
  arguments of its \<^verbatim>\<open>start(0, offset, duration)\<close> call and by whether \<^verbatim>\<open>stop()\<close> has
  been called on it. Every context and every source node ever created is kept in a store
  (a list that only grows); a ref of the provider holds the index of its object. A blob
  is known by what \<^verbatim>\<open>decodeAudioData\<close> makes of its bytes. Of the Web Audio calls only
  \<^verbatim>\<open>decodeAudioData\<close> is taken to fail; \<^verbatim>\<open>source.start\<close>, which the platform
  refuses for a negative offset or duration, is recorded with the arguments it is called
  with, and the properties of a started source are stated for arguments that are not
  negative. Callbacks run one at a time. A call of \<^verbatim>\<open>playRecording\<close> is taken as one
  step: its first statement, \<^verbatim>\<open>stopPlayback()\<close>, withdraws the pending frame, so no
  tick can run while the call waits at an \<^verbatim>\<open>await\<close>, and callers are taken not to call
  the provider again before the promise has settled.
\<close>

datatype ctxState = Running | Suspended | Closed

record AudioBuffer =
  bufferDuration :: real

datatype blob = Decodable AudioBuffer | Malformed

datatype failure = DecodeError

fun decodeAudioData :: "blob \<Rightarrow> failure + AudioBuffer" where
  "decodeAudioData (Decodable audioBuffer) = Inr audioBuffer"
| "decodeAudioData Malformed = Inl DecodeError"

record sourceNode =
  srcOffset :: real
  srcDuration :: "real option"
  srcStopped :: bool

record PlayHistoryEntry =
  recordingId :: string
  timestamp :: int

text \<open>How the promise returned by an async function settles.\<close>

datatype settlement = Fulfilled | Rejected failure

text \<open>What a call of \<^verbatim>\<open>playRecording\<close> reads from its surroundings: the clock of the
  audio context (\<^verbatim>\<open>audioContext.currentTime\<close>) when the source is started,
  \<^verbatim>\<open>Date.now()\<close>, and whether a new \<^verbatim>\<open>AudioContext\<close> is created suspended
  (by the browser's autoplay policy) rather than running.\<close>

record PlayEnv =
  contextTime :: real
  dateNow :: int
  createdSuspended :: bool

subsection \<open>The provider's state\<close>

text \<open>
  The React state (\<open>playingRecordingId\<close> to \<open>playHistory\<close>), the refs, and the platform
  side: the two stores, the animation frames that are requested and have not yet run or
  been cancelled, the last frame id handed out, and what was written with
  \<^verbatim>\<open>console.error\<close>. \<open>gainNodeRef\<close> and \<open>crossfadeGainNodeRef\<close> hold the index
  of the context their gain node belongs to; gain values are not modelled
  (\<^verbatim>\<open>CROSSFADE_DURATION\<close> is 0).
\<close>

record playback =
  playingRecordingId :: "string option"
  isLooping :: bool
  currentTime :: real
  duration :: real
  playHistory :: "PlayHistoryEntry list"
  audioContextRef :: "nat option"
  audioBufferRef :: "AudioBuffer option"
  sourceNodeRef :: "nat option"
  gainNodeRef :: "nat option"
  crossfadeGainNodeRef :: "nat option"
  startTimeRef :: real
  pauseTimeRef :: real
  animationFrameRef :: nat
  loopPointsRef :: "real LoopPoints option"
  isLoopingRef :: bool
  crossfadeScheduledRef :: bool
  nextSourceRef :: "nat option"
  contexts :: "ctxState list"
  sources :: "sourceNode list"
  pendingFrames :: "nat set"
  frameCounter :: nat
  consoleErrors :: "string list"

definition initial :: playback where
  "initial =
     \<lparr>playingRecordingId = None, isLooping = False, currentTime = 0, duration = 0,
      playHistory = [], audioContextRef = None, audioBufferRef = None, sourceNodeRef = None,
      gainNodeRef = None, crossfadeGainNodeRef = None, startTimeRef = 0, pauseTimeRef = 0,
      animationFrameRef = 0, loopPointsRef = None, isLoopingRef = False,
      crossfadeScheduledRef = False, nextSourceRef = None, contexts = [], sources = [],
      pendingFrames = {}, frameCounter = 0, consoleErrors = []\<rparr>"

subsection \<open>Platform calls\<close>

text \<open>\<^verbatim>\<open>source.stop()\<close> inside \<^verbatim>\<open>try { } catch\<close>: a source that has stopped stays so.\<close>

definition stopSource :: "nat \<Rightarrow> playback \<Rightarrow> playback" where
  "stopSource i s = s\<lparr>sources := (sources s)[i := (sources s ! i)\<lparr>srcStopped := True\<rparr>]\<rparr>"

text \<open>\<^verbatim>\<open>requestAnimationFrame(updatePlayback)\<close> hands out a new non-zero id;
  \<^verbatim>\<open>cancelAnimationFrame(id)\<close> withdraws the request.\<close>

definition requestAnimationFrame :: "playback \<Rightarrow> nat \<times> playback" where
  "requestAnimationFrame s =
     (let fid = Suc (frameCounter s)
      in (fid, s\<lparr>frameCounter := fid, pendingFrames := insert fid (pendingFrames s)\<rparr>))"

definition cancelAnimationFrame :: "nat \<Rightarrow> playback \<Rightarrow> playback" where
  "cancelAnimationFrame fid s = s\<lparr>pendingFrames := pendingFrames s - {fid}\<rparr>"

text \<open>\<^verbatim>\<open>animationFrameRef.current = requestAnimationFrame(updatePlayback)\<close>.\<close>

definition scheduleTick :: "playback \<Rightarrow> playback" where
  "scheduleTick s = (case requestAnimationFrame s of (fid, s') \<Rightarrow> s'\<lparr>animationFrameRef := fid\<rparr>)"

text \<open>\<^verbatim>\<open>if (audioContextRef.current && audioContextRef.current.state !== 'closed')
  await audioContextRef.current.close()\<close>.\<close>

definition closeContext :: "playback \<Rightarrow> playback" where
  "closeContext s =
     (case audioContextRef s of
        None \<Rightarrow> s
      | Some c \<Rightarrow>
          if contexts s ! c \<noteq> Closed then s\<lparr>contexts := (contexts s)[c := Closed]\<rparr> else s)"

subsection \<open>The provider's functions\<close>

definition stopPlayback :: "playback \<Rightarrow> playback" where
  "stopPlayback s =
     (let s1 = (case sourceNodeRef s of
                  None \<Rightarrow> s
                | Some i \<Rightarrow> (stopSource i s)\<lparr>sourceNodeRef := None\<rparr>);
          s2 = (case nextSourceRef s1 of
                  None \<Rightarrow> s1
                | Some i \<Rightarrow> (stopSource i s1)\<lparr>nextSourceRef := None\<rparr>);
          s3 = (if animationFrameRef s2 \<noteq> 0
                then (cancelAnimationFrame (animationFrameRef s2) s2)\<lparr>animationFrameRef := 0\<rparr>
                else s2)
      in s3\<lparr>crossfadeScheduledRef := False\<rparr>)"

text \<open>
  \<^verbatim>\<open>startPlayback(startFrom, fadeIn)\<close>, with \<open>now\<close> the value of
  \<^verbatim>\<open>audioContext.currentTime\<close>. A suspended context is resumed first. \<open>fadeIn\<close> only
  chooses between two gain settings that are the same at \<^verbatim>\<open>CROSSFADE_DURATION = 0\<close>.
\<close>

definition startPlayback :: "real \<Rightarrow> bool \<Rightarrow> real \<Rightarrow> playback \<Rightarrow> playback" where
  "startPlayback startFrom fadeIn now s =
     (case (audioContextRef s, audioBufferRef s, gainNodeRef s) of
        (Some c, Some audioBuffer, Some gainNode) \<Rightarrow>
          if contexts s ! c = Closed
          then s\<lparr>consoleErrors := consoleErrors s @ [''AudioContext is closed'']\<rparr>
          else
            (let s1 = (if contexts s ! c = Suspended
                       then s\<lparr>contexts := (contexts s)[c := Running]\<rparr> else s);
                 s2 = stopPlayback s1;
                 offset = (if isLoopingRef s2
                           then (case loopPointsRef s2 of
                                   None \<Rightarrow> startFrom
                                 | Some lp \<Rightarrow> if startFrom \<ge> start lp then startFrom else start lp)
                           else startFrom);
                 playDuration = (if isLoopingRef s2
                                 then (case loopPointsRef s2 of
                                         None \<Rightarrow> None
                                       | Some lp \<Rightarrow> Some (end' lp - offset))
                                 else None);
                 source = length (sources s2)
             in s2\<lparr>sources := sources s2 @
                     [\<lparr>srcOffset = offset, srcDuration = playDuration, srcStopped = False\<rparr>],
                   crossfadeGainNodeRef := Some c,
                   sourceNodeRef := Some source,
                   startTimeRef := now,
                   pauseTimeRef := offset,
                   crossfadeScheduledRef := False\<rparr>)
      | _ \<Rightarrow> s\<lparr>consoleErrors := consoleErrors s @ [''Audio not initialized'']\<rparr>)"

text \<open>Whether a call of \<^verbatim>\<open>startPlayback\<close> would stop at
  \<^verbatim>\<open>await audioContext.resume()\<close>.\<close>

definition awaitsResume :: "playback \<Rightarrow> bool" where
  "awaitsResume s =
     (case (audioContextRef s, audioBufferRef s, gainNodeRef s) of
        (Some c, Some audioBuffer, Some gainNode) \<Rightarrow> contexts s ! c = Suspended
      | _ \<Rightarrow> False)"

text \<open>
  \<^verbatim>\<open>updatePlayback\<close>, the callback of the animation frame, with \<open>now\<close> the value of
  \<^verbatim>\<open>audioContext.currentTime\<close>. It does not await \<^verbatim>\<open>startPlayback\<close>: when that
  call stops at \<^verbatim>\<open>await audioContext.resume()\<close>, the rest of it runs after
  \<^verbatim>\<open>updatePlayback\<close> has requested the next frame; otherwise all of it runs before.
\<close>

definition updatePlayback :: "real \<Rightarrow> playback \<Rightarrow> playback" where
  "updatePlayback now s =
     (case (audioContextRef s, audioBufferRef s) of
        (Some c, Some audioBuffer) \<Rightarrow>
          (let elapsed = now - startTimeRef s;
               newTime = pauseTimeRef s + elapsed;
               s1 = s\<lparr>currentTime := newTime\<rparr>
           in if isLoopingRef s1 \<and> loopPointsRef s1 \<noteq> None
              then (case loopPointsRef s1 of
                      Some lp \<Rightarrow>
                        if newTime \<ge> end' lp
                        then (let s2 = stopPlayback s1
                              in if awaitsResume s2
                                 then startPlayback (start lp) False now (scheduleTick s2)
                                 else scheduleTick (startPlayback (start lp) False now s2))
                        else scheduleTick s1
                    | None \<Rightarrow> scheduleTick s1)
              else if \<not> isLoopingRef s1 \<and> newTime \<ge> bufferDuration audioBuffer
              then (stopPlayback s1)\<lparr>playingRecordingId := None, isLooping := False,
                                      currentTime := 0, isLoopingRef := False\<rparr>
              else scheduleTick s1)
      | _ \<Rightarrow> s)"

text \<open>The Tick Source: the browser runs the callback of a pending frame, which is then no
  longer pending.\<close>

definition fireFrame :: "nat \<Rightarrow> real \<Rightarrow> playback \<Rightarrow> playback" where
  "fireFrame fid now s =
     (if fid \<in> pendingFrames s
      then updatePlayback now (s\<lparr>pendingFrames := pendingFrames s - {fid}\<rparr>)
      else s)"

text \<open>The entry added to the play history by a fresh start.\<close>

definition addToHistory :: "string \<Rightarrow> int \<Rightarrow> PlayHistoryEntry list \<Rightarrow> PlayHistoryEntry list" where
  "addToHistory recId now prev =
     (let filtered = filter (\<lambda>e. recordingId e \<noteq> recId) prev;
          newEntry = \<lparr>recordingId = recId, timestamp = now\<rparr>
      in take 1000 (newEntry # filtered))"

text \<open>
  \<^verbatim>\<open>playRecording\<close> is made by \<^verbatim>\<open>useCallback\<close> with the dependencies
  \<^verbatim>\<open>[playingRecordingId, isLooping, ...]\<close>: the function a caller holds was made by one
  render of the provider, and its first test reads the values of \<^verbatim>\<open>playingRecordingId\<close>
  and \<^verbatim>\<open>isLooping\<close> that this render saw, not the current ones (a state update is seen
  only by the functions of the next render). Refs are read as they are when the function
  runs. \<open>Rendered\<close> holds the two values a render saw, \<open>render s\<close> is the render of the
  state \<open>s\<close>, and \<open>playRecording rendered\<close> is the function made by that render.
\<close>

record Rendered =
  seenPlayingRecordingId :: "string option"
  seenIsLooping :: bool

definition render :: "playback \<Rightarrow> Rendered" where
  "render s = \<lparr>seenPlayingRecordingId = playingRecordingId s, seenIsLooping = isLooping s\<rparr>"

definition playRecording ::
  "Rendered \<Rightarrow> string \<Rightarrow> blob \<Rightarrow> bool \<Rightarrow> real LoopPoints option \<Rightarrow> PlayEnv \<Rightarrow> playback
     \<Rightarrow> settlement \<times> playback" where
  "playRecording rendered recId audioBlob loop loopPoints env s =
     (if seenPlayingRecordingId rendered = Some recId \<and> seenIsLooping rendered = loop
      then (Fulfilled,
            (closeContext (stopPlayback s))
              \<lparr>audioContextRef := None, audioBufferRef := None, gainNodeRef := None,
               playingRecordingId := None, isLooping := False, currentTime := 0,
               duration := 0, isLoopingRef := False\<rparr>)
      else
        (let s1 = closeContext (stopPlayback s);
             audioContext = length (contexts s1);
             s2 = s1\<lparr>contexts := contexts s1 @
                       [if createdSuspended env then Suspended else Running],
                     audioContextRef := Some audioContext\<rparr>
         in case decodeAudioData audioBlob of
              Inl err \<Rightarrow>
                (Fulfilled,
                 s2\<lparr>consoleErrors := consoleErrors s2 @ [''Error playing audio:''],
                    isLoopingRef := False, playingRecordingId := None, isLooping := False\<rparr>)
            | Inr audioBuffer \<Rightarrow>
                (let s3 = s2\<lparr>audioBufferRef := Some audioBuffer,
                             gainNodeRef := Some audioContext,
                             loopPointsRef := loopPoints,
                             isLoopingRef := loop,
                             playingRecordingId := Some recId,
                             isLooping := loop,
                             duration := bufferDuration audioBuffer,
                             currentTime := 0,
                             playHistory := addToHistory recId (dateNow env) (playHistory s2)\<rparr>;
                     startFrom = (if loop then (case loopPoints of
                                                  None \<Rightarrow> 0
                                                | Some lp \<Rightarrow> start lp)
                                  else 0);
                     s4 = startPlayback startFrom False (contextTime env) s3
                 in (Fulfilled, scheduleTick s4))))"

text \<open>\<^verbatim>\<open>isPlaying\<close>, as made by the render of the state \<open>s\<close>.\<close>

definition isPlaying :: "string \<Rightarrow> bool option \<Rightarrow> playback \<Rightarrow> bool" where
  "isPlaying recId checkLoop s =
     (case checkLoop of
        Some l \<Rightarrow> playingRecordingId s = Some recId \<and> isLooping s = l
      | None \<Rightarrow> playingRecordingId s = Some recId)"

text \<open>\<^verbatim>\<open>Array.from(new Set(xs))\<close>: the distinct elements in the order of their first
  occurrence.\<close>

definition Array_from_Set :: "'a list \<Rightarrow> 'a list" where
  "Array_from_Set xs = foldl (\<lambda>acc x. if x \<in> set acc then acc else acc @ [x]) [] xs"

text \<open>\<^verbatim>\<open>recentlyPlayedRecordings\<close>, with \<open>now\<close> the value of \<^verbatim>\<open>Date.now()\<close> when the
  memo is computed (it is recomputed when the play history changes).\<close>

definition recentlyPlayedRecordings :: "int \<Rightarrow> PlayHistoryEntry list \<Rightarrow> string list" where
  "recentlyPlayedRecordings now history =
     (let sevenDaysAgo = now - 7 * 24 * 60 * 60 * 1000;
          recentEntries = filter (\<lambda>entry. timestamp entry > sevenDaysAgo) history
      in Array_from_Set (map recordingId recentEntries))"

subsection \<open>Resources and the well-formed states\<close>

text \<open>No source node is producing output; no audio context is open.\<close>

definition allSourcesStopped :: "playback \<Rightarrow> bool" where
  "allSourcesStopped s \<longleftrightarrow> list_all srcStopped (sources s)"

definition allContextsClosed :: "playback \<Rightarrow> bool" where
  "allContextsClosed s \<longleftrightarrow> list_all (\<lambda>st. st = Closed) (contexts s)"

text \<open>Idle with every resource released: nothing is playing, no source runs, no context
  is open and no tick is pending.\<close>

definition idle :: "playback \<Rightarrow> bool" where
  "idle s \<longleftrightarrow>
     playingRecordingId s = None \<and> allSourcesStopped s \<and> allContextsClosed s \<and>
     pendingFrames s = {}"

text \<open>Every ref points into its store.\<close>

definition refsInStore :: "playback \<Rightarrow> bool" where
  "refsInStore s \<longleftrightarrow>
     (case sourceNodeRef s of None \<Rightarrow> True | Some i \<Rightarrow> i < length (sources s)) \<and>
     (case nextSourceRef s of None \<Rightarrow> True | Some i \<Rightarrow> i < length (sources s)) \<and>
     (case audioContextRef s of None \<Rightarrow> True | Some c \<Rightarrow> c < length (contexts s))"

text \<open>The provider owns what is live: a source that has not been stopped is the one a
  source ref holds, a context that is not closed is the one \<open>audioContextRef\<close> holds, and a
  pending frame is the one \<open>animationFrameRef\<close> holds.\<close>

definition ownsLive :: "playback \<Rightarrow> bool" where
  "ownsLive s \<longleftrightarrow>
     (\<forall>i\<in>{..<length (sources s)}.
        srcStopped (sources s ! i) \<or> sourceNodeRef s = Some i \<or> nextSourceRef s = Some i) \<and>
     (\<forall>c\<in>{..<length (contexts s)}. contexts s ! c = Closed \<or> audioContextRef s = Some c) \<and>
     (\<forall>f\<in>pendingFrames s. f = animationFrameRef s \<and> f \<noteq> 0)"

definition wellFormed :: "playback \<Rightarrow> bool" where
  "wellFormed s \<longleftrightarrow> refsInStore s \<and> ownsLive s"

text \<open>A session is established: the refs a tick and a restart need are set, the context
  runs, and the tick is pending.\<close>

definition sessionActive :: "playback \<Rightarrow> bool" where
  "sessionActive s \<longleftrightarrow>
     (case (audioContextRef s, audioBufferRef s, gainNodeRef s) of
        (Some c, Some audioBuffer, Some gainNode) \<Rightarrow> contexts s ! c = Running
      | _ \<Rightarrow> False) \<and>
     animationFrameRef s \<in> pendingFrames s"

subsection \<open>The position a tick computes, the reachable states, two sessions\<close>

text \<open>\<^verbatim>\<open>pauseTimeRef.current + (audioContext.currentTime - startTimeRef.current)\<close>, the
  value \<open>newTime\<close> of \<^verbatim>\<open>updatePlayback\<close>.\<close>

definition trackedPosition :: "real \<Rightarrow> playback \<Rightarrow> real" where
  "trackedPosition now s = pauseTimeRef s + (now - startTimeRef s)"

text \<open>The states the provider can be in: it starts in \<open>initial\<close>; callers play (with
  the function of any render) and stop, the browser runs pending animation frames.\<close>

inductive reachable :: "playback \<Rightarrow> bool" where
  start: "reachable initial"
| play: "reachable s \<Longrightarrow> reachable (snd (playRecording r recId audioBlob loop loopPoints env s))"
| stop: "reachable s \<Longrightarrow> reachable (stopPlayback s)"
| tick: "reachable s \<Longrightarrow> reachable (fireFrame fid now s)"

text \<open>A 10 s recording played from the initial state, looping over \<open>[2, 5]\<close> and in normal
  mode.\<close>

definition loopSession :: playback where
  "loopSession =
     snd (playRecording (render initial) ''A'' (Decodable \<lparr>bufferDuration = 10\<rparr>) True
            (Some \<lparr>start = 2, end' = 5\<rparr>)
            \<lparr>contextTime = 0, dateNow = 1000, createdSuspended = False\<rparr> initial)"

definition normalSession :: playback where
  "normalSession =
     snd (playRecording (render initial) ''A'' (Decodable \<lparr>bufferDuration = 10\<rparr>) False None
            \<lparr>contextTime = 0, dateNow = 1000, createdSuspended = False\<rparr> initial)"

text \<open>The looping session after the browser has suspended its audio context.\<close>

definition suspendedLoopSession :: playback where
  "suspendedLoopSession = loopSession\<lparr>contexts := [Suspended]\<rparr>"

text \<open>One tick: the browser runs the frame the provider is waiting for.\<close>

definition tick :: "real \<Rightarrow> playback \<Rightarrow> playback" where
  "tick now s = fireFrame (animationFrameRef s) now s"
section \<open>Properties of the rounding\<close>

subsection \<open>Rounding to an integer\<close>

lemma roundHalfEven_of_int [simp]: "roundHalfEven (of_int n) = n"
  by (simp add: roundHalfEven_def)

lemma roundHalfEven_bounds:
  "\<lfloor>y\<rfloor> \<le> roundHalfEven y" "roundHalfEven y \<le> \<lfloor>y\<rfloor> + 1"
  by (simp_all add: roundHalfEven_def Let_def)

lemma roundHalfEven_mono:
  assumes "a \<le> b"
  shows "roundHalfEven a \<le> roundHalfEven b"
proof (cases "\<lfloor>a\<rfloor> = \<lfloor>b\<rfloor>")
  case True
  with assms show ?thesis
    by (auto simp add: roundHalfEven_def Let_def)
next
  case False
  with assms have "\<lfloor>a\<rfloor> < \<lfloor>b\<rfloor>"
    using floor_mono [of a b] by linarith
  hence "\<lfloor>a\<rfloor> + 1 \<le> \<lfloor>b\<rfloor>" by simp
  with roundHalfEven_bounds(2) [of a] roundHalfEven_bounds(1) [of b] show ?thesis
    by linarith
qed


lemma roundHalfEven_minus: "roundHalfEven (- y) = - roundHalfEven y"
proof (cases "y = of_int \<lfloor>y\<rfloor>")
  case True
  then obtain n where "y = of_int n" ..
  hence "- y = of_int (- n)" by simp
  thus ?thesis using \<open>y = of_int n\<close> by (metis roundHalfEven_of_int)
next
  case False
  have b: "of_int \<lfloor>y\<rfloor> \<le> y" "y < of_int \<lfloor>y\<rfloor> + 1" by linarith+
  with False have "of_int \<lfloor>y\<rfloor> < y" by linarith
  with b have "\<lfloor>- y\<rfloor> = - \<lfloor>y\<rfloor> - 1"
    by (intro floor_unique) (simp_all, linarith+)
  thus ?thesis
    by (auto simp add: roundHalfEven_def Let_def)
qed

subsection \<open>Rounding to a double: sign, monotonicity, error\<close>

lemma binade_le: "x \<noteq> 0 \<Longrightarrow> \<bar>x\<bar> < 2 powr (of_int (binade x) + 1)"
proof -
  assume "x \<noteq> 0"
  hence pos: "0 < \<bar>x\<bar>" by simp
  have "\<bar>x\<bar> < 2 powr (of_int \<lfloor>log 2 \<bar>x\<bar>\<rfloor> + 1)"
    using floor_log_eq_powr_iff [OF pos, of 2 "\<lfloor>log 2 \<bar>x\<bar>\<rfloor>"] by simp
  also have "\<dots> \<le> 2 powr (of_int (binade x) + 1)"
    by (simp add: binade_def)
  finally show ?thesis .
qed

lemma binade_ge:
  "x \<noteq> 0 \<Longrightarrow> - 1022 \<le> \<lfloor>log 2 \<bar>x\<bar>\<rfloor> \<Longrightarrow> 2 powr (of_int (binade x)) \<le> \<bar>x\<bar>"
proof -
  assume "x \<noteq> 0" and n: "- 1022 \<le> \<lfloor>log 2 \<bar>x\<bar>\<rfloor>"
  hence pos: "0 < \<bar>x\<bar>" by simp
  have "2 powr (of_int \<lfloor>log 2 \<bar>x\<bar>\<rfloor>) \<le> \<bar>x\<bar>"
    using floor_log_eq_powr_iff [OF pos, of 2 "\<lfloor>log 2 \<bar>x\<bar>\<rfloor>"] by simp
  moreover have "binade x = \<lfloor>log 2 \<bar>x\<bar>\<rfloor>" using n by (simp add: binade_def)
  ultimately show ?thesis by simp
qed

lemma binade_minus [simp]: "binade (- x) = binade x"
  by (simp add: binade_def)

lemma binade_mono: "0 < x \<Longrightarrow> x \<le> y \<Longrightarrow> binade x \<le> binade y"
  unfolding binade_def
  by (intro max.mono floor_mono) auto

lemma binade_eqI:
  assumes "2 powr (of_int k) \<le> \<bar>x\<bar>" "\<bar>x\<bar> < 2 powr (of_int k + 1)" "- 1022 \<le> k"
  shows "binade x = k"
proof -
  have "0 < 2 powr (of_int k :: real)" by simp
  with assms(1) have pos: "0 < \<bar>x\<bar>" by linarith
  have "\<lfloor>log 2 \<bar>x\<bar>\<rfloor> = k"
    using floor_log_eq_powr_iff [OF pos, of 2 k] assms by simp
  with assms(3) show ?thesis by (simp add: binade_def)
qed

lemma quantum_pos [simp]: "0 < quantum x"
  by (simp add: quantum_def)

lemma quantum_nonzero [simp]: "quantum x \<noteq> 0" "0 \<le> quantum x"
  using quantum_pos [of x] by linarith+

lemma quantum_minus [simp]: "quantum (- x) = quantum x"
  by (simp add: quantum_def)

lemma fl_0 [simp]: "fl 0 = 0"
  by (simp add: fl_def)

lemma fl_minus: "fl (- x) = - fl x"
  by (simp add: fl_def roundHalfEven_minus)


lemma fl_nonneg: "0 \<le> x \<Longrightarrow> 0 \<le> fl x"
proof -
  assume "0 \<le> x"
  hence "0 \<le> x / quantum x" by (simp add: less_imp_le)
  hence "roundHalfEven (of_int 0) \<le> roundHalfEven (x / quantum x)"
    by (intro roundHalfEven_mono) simp
  hence "0 \<le> roundHalfEven (x / quantum x)" by (simp only: roundHalfEven_of_int)
  thus ?thesis by (simp add: fl_def)
qed

lemma fl_upper:
  assumes "0 < x"
  shows "fl x \<le> 2 powr (of_int (binade x) + 1)"
proof -
  let ?q = "quantum x"
  have q: "0 < ?q" by simp
  have e: "2 powr (of_int (binade x) + 1) = ?q * 2 ^ 53"
  proof -
    have "(2::real) powr (of_int (binade x) + 1) = 2 powr ((of_int (binade x) - 52) + 53)" by (simp add: add.commute)
    also have "\<dots> = ?q * 2 powr 53" unfolding quantum_def by (rule powr_add)
    finally show ?thesis by simp
  qed
  have "x < ?q * 2 ^ 53" using binade_le [of x] assms e by simp
  hence "x / ?q \<le> of_int (2 ^ 53)" using q by (simp add: pos_divide_le_eq mult.commute)
  hence "roundHalfEven (x / ?q) \<le> roundHalfEven (of_int (2 ^ 53))"
    by (rule roundHalfEven_mono)
  hence "roundHalfEven (x / ?q) \<le> 2 ^ 53" by (simp only: roundHalfEven_of_int)
  hence "of_int (roundHalfEven (x / ?q)) \<le> (2 ^ 53 :: real)"
    by (metis of_int_le_iff of_int_numeral of_int_power)
  hence "?q * of_int (roundHalfEven (x / ?q)) \<le> ?q * 2 ^ 53"
    using q by (intro mult_left_mono) auto
  thus ?thesis using assms e by (simp add: fl_def)
qed

lemma fl_lower:
  assumes "0 < x" "- 1022 \<le> \<lfloor>log 2 \<bar>x\<bar>\<rfloor>"
  shows "2 powr (of_int (binade x)) \<le> fl x"
proof -
  let ?q = "quantum x"
  have q: "0 < ?q" by simp
  have e: "2 powr (of_int (binade x)) = ?q * 2 ^ 52"
  proof -
    have "(2::real) powr (of_int (binade x)) = 2 powr ((of_int (binade x) - 52) + 52)" by simp
    also have "\<dots> = ?q * 2 powr 52" unfolding quantum_def by (rule powr_add)
    finally show ?thesis by simp
  qed
  have "?q * 2 ^ 52 \<le> x" using binade_ge [of x] assms e by simp
  hence "of_int (2 ^ 52) \<le> x / ?q" using q by (simp add: pos_le_divide_eq mult.commute)
  hence "roundHalfEven (of_int (2 ^ 52)) \<le> roundHalfEven (x / ?q)"
    by (rule roundHalfEven_mono)
  hence "2 ^ 52 \<le> roundHalfEven (x / ?q)" by (simp only: roundHalfEven_of_int)
  hence "(2 ^ 52 :: real) \<le> of_int (roundHalfEven (x / ?q))"
    by (metis of_int_le_iff of_int_numeral of_int_power)
  hence "?q * 2 ^ 52 \<le> ?q * of_int (roundHalfEven (x / ?q))"
    using q by (intro mult_left_mono) auto
  thus ?thesis using assms e by (simp add: fl_def)
qed

lemma fl_mono_pos:
  assumes "0 < x" "x \<le> y"
  shows "fl x \<le> fl y"
proof (cases "binade x = binade y")
  case True
  hence q: "quantum x = quantum y" by (simp add: quantum_def)
  have "x / quantum y \<le> y / quantum y"
    using assms by (simp add: divide_right_mono less_imp_le)
  hence "roundHalfEven (x / quantum y) \<le> roundHalfEven (y / quantum y)"
    by (rule roundHalfEven_mono)
  hence "quantum y * of_int (roundHalfEven (x / quantum y))
         \<le> quantum y * of_int (roundHalfEven (y / quantum y))"
    by (intro mult_left_mono) (auto simp add: less_imp_le)
  thus ?thesis using assms q by (simp add: fl_def)
next
  case False
  with binade_mono [OF assms] have lt: "binade x < binade y" by simp
  have y: "0 < y" using assms by simp
  have "- 1022 \<le> binade x" by (simp add: binade_def)
  with lt have "- 1022 < binade y" by simp
  hence fy: "- 1022 \<le> \<lfloor>log 2 \<bar>y\<bar>\<rfloor>" by (simp add: binade_def max_def split: if_splits)
  have "fl x \<le> 2 powr (of_int (binade x) + 1)" by (rule fl_upper [OF assms(1)])
  also have "\<dots> \<le> 2 powr (of_int (binade y))" using lt by simp
  also have "\<dots> \<le> fl y" by (rule fl_lower [OF y fy])
  finally show ?thesis .
qed

lemma fl_mono:
  assumes "x \<le> y"
  shows "fl x \<le> fl y"
proof -
  consider "0 < x" | "x \<le> 0" "0 \<le> y" | "y < 0" by linarith
  thus ?thesis
  proof cases
    case 1 thus ?thesis using assms by (rule fl_mono_pos)
  next
    case 2
    have "fl x = - fl (- x)" by (simp add: fl_minus)
    moreover have "0 \<le> fl (- x)" using 2 by (intro fl_nonneg) simp
    moreover have "0 \<le> fl y" using 2 by (intro fl_nonneg)
    ultimately show ?thesis by linarith
  next
    case 3
    hence "fl (- y) \<le> fl (- x)" using assms by (intro fl_mono_pos) auto
    thus ?thesis by (simp add: fl_minus)
  qed
qed




subsection \<open>Evaluating the rounding\<close>

text \<open>For a number whose magnitude lies between two powers of two that are known, the
  rounding is a division of integers.\<close>

lemma quantum_binade_ge:
  fixes k :: nat
  assumes "2 ^ k \<le> \<bar>x\<bar>" "\<bar>x\<bar> < 2 ^ Suc k" "k \<le> 52"
  shows "quantum x = 1 / 2 ^ (52 - k)"
proof -
  have "binade x = int k"
  proof (rule binade_eqI)
    show "2 powr real_of_int (int k) \<le> \<bar>x\<bar>" using assms(1) by (simp add: powr_realpow)
    have "2 powr (real_of_int (int k) + 1) = 2 powr (real (Suc k))" by (simp add: add.commute)
    also have "\<dots> = 2 ^ Suc k" by (rule powr_realpow) simp
    finally show "\<bar>x\<bar> < 2 powr (real_of_int (int k) + 1)" using assms(2) by simp
  qed simp
  hence "quantum x = 2 powr (- real (52 - k))"
    using assms(3) by (simp add: quantum_def of_nat_diff)
  also have "\<dots> = 1 / 2 powr (real (52 - k))" by (simp add: powr_minus_divide)
  also have "2 powr (real (52 - k)) = (2::real) ^ (52 - k)" by (rule powr_realpow) simp
  finally show ?thesis .
qed

lemma fl_binade_ge:
  fixes k :: nat
  assumes "2 ^ k \<le> \<bar>x\<bar>" "\<bar>x\<bar> < 2 ^ Suc k" "k \<le> 52"
  shows "fl x = of_int (roundHalfEven (x * 2 ^ (52 - k))) / 2 ^ (52 - k)"
proof -
  have "0 < (2::real) ^ k" by simp
  with assms(1) have "0 < \<bar>x\<bar>" by linarith
  hence "x \<noteq> 0" by simp
  thus ?thesis by (simp add: fl_def quantum_binade_ge [OF assms])
qed




subsection \<open>Particular values and results\<close>

lemma fl_1 [simp]: "fl 1 = 1"
  by (subst fl_binade_ge [of 0]) (simp_all add: roundHalfEven_def)



lemma dbl_Fin: "\<bar>fl x\<bar> < 2 ^ 1024 \<Longrightarrow> dbl x = Fin (fl x)"
  by (auto simp add: dbl_def Let_def abs_less_iff)

lemma dbl_between:
  assumes "isDouble D" "0 \<le> x" "x \<le> D"
  shows "dbl x = Fin (fl x)" "0 \<le> fl x" "fl x \<le> D"
proof -
  show n: "0 \<le> fl x" by (rule fl_nonneg [OF assms(2)])
  have "fl x \<le> fl D" by (rule fl_mono [OF assms(3)])
  with assms(1) show u: "fl x \<le> D" by (simp add: isDouble_def)
  from assms(1) have "\<bar>D\<bar> < 2 ^ 1024" by (simp add: isDouble_def)
  with n u have "\<bar>fl x\<bar> < 2 ^ 1024" by simp
  then show "dbl x = Fin (fl x)" by (rule dbl_Fin)
qed

lemma dbl_nonneg:
  assumes "0 \<le> x"
  shows "dbl x = PInf \<or> dbl x = Fin (fl x) \<and> 0 \<le> fl x"
  using fl_nonneg [OF assms] by (auto simp add: dbl_def Let_def)




section \<open>Properties of the waveform worker\<close>

subsection \<open>The loops in closed form\<close>

lemma pushLoop_eq:
  "pushLoop channelData spp tp i acc = acc @ map (chunkRms channelData spp) [i..<tp]"
proof (induction channelData spp tp i acc rule: pushLoop.induct)
  case (1 channelData spp tp i acc)
  show ?case
  proof (cases "i < tp")
    case True
    with "1" show ?thesis
      by (subst pushLoop.simps) (simp add: upt_conv_Cons)
  next
    case False
    then show ?thesis by (subst pushLoop.simps) simp
  qed
qed

lemma rmsValues_eq:
  "rmsValues channelData tp = map (chunkRms channelData (length channelData div tp)) [0..<tp]"
  by (simp add: rmsValues_def pushLoop_eq)

lemma length_rmsValues: "length (rmsValues channelData tp) = tp"
  by (simp add: rmsValues_eq)

subsection \<open>The value of one window\<close>

text \<open>With a chunk size of 0 the window is empty and the code divides 0 by 0.\<close>

lemma sumLoop_empty: "e \<le> j \<Longrightarrow> sumLoop channelData j e s = s"
  by (subst sumLoop.simps) simp

lemma chunkRms_empty: "chunkRms channelData 0 i = NaN"
  by (simp add: chunkRms_def sumLoop_empty)

text \<open>An input with fewer samples than \<open>targetPoints\<close> has chunk size 0.\<close>

lemma short_input_windows:
  assumes "length channelData < tp"
  shows "rmsValues channelData tp = replicate tp NaN"
  using assms by (intro nth_equalityI) (simp_all add: rmsValues_eq chunkRms_empty)

lemma Math_max_NaN: "0 < n \<Longrightarrow> Math_max (replicate n NaN) = NaN"
  by (cases n) simp_all

subsection \<open>The two responses\<close>

lemma onmessage_over_limit:
  assumes "maxArguments engine < targetPoints"
  shows "onmessage engine channelData targetPoints =
           \<lparr>waveformData = [], error = Some (rangeErrorMessage engine)\<rparr>"
  using assms
  by (simp add: onmessage_def tryBody_def Math_max_spread_def length_rmsValues)

lemma onmessage_within_limit:
  assumes "targetPoints \<le> maxArguments engine"
  shows "onmessage engine channelData targetPoints =
           \<lparr>waveformData =
              (if js_less (Fin 0) (Math_max (rmsValues channelData targetPoints))
               then map (\<lambda>val. js_divide val (Math_max (rmsValues channelData targetPoints)))
                      (rmsValues channelData targetPoints)
               else rmsValues channelData targetPoints),
            error = None\<rparr>"
  using assms
  by (simp add: onmessage_def tryBody_def Math_max_spread_def length_rmsValues Let_def)

lemma short_input_all_NaN:
  assumes "length channelData < targetPoints" "targetPoints \<le> maxArguments engine"
  shows "onmessage engine channelData targetPoints =
           \<lparr>waveformData = replicate targetPoints NaN, error = None\<rparr>"
proof -
  from assms(1) have "0 < targetPoints" by simp
  then show ?thesis
    by (simp add: onmessage_within_limit [OF assms(2)] short_input_windows [OF assms(1)]
        Math_max_NaN)
qed

subsection \<open>The maximum and the normalisation\<close>

text \<open>Whatever the input, a window value has the shape \<open>rmsShape\<close>.\<close>

lemma rmsShape_simps [simp]:
  "rmsShape (Fin r) \<longleftrightarrow> 0 \<le> r" "rmsShape PInf" "rmsShape NaN" "\<not> rmsShape NInf"
  by (simp_all add: rmsShape_def)

lemma dbl_shape: "0 \<le> x \<Longrightarrow> rmsShape (dbl x)"
  using dbl_nonneg [of x] by auto

lemma square_shape: "rmsShape (js_mul v v)"
  by (cases v) (simp_all add: dbl_shape)

lemma add_shape: "rmsShape a \<Longrightarrow> rmsShape b \<Longrightarrow> rmsShape (js_add a b)"
  by (cases a; cases b) (simp_all add: dbl_shape)

lemma sumLoop_shape: "rmsShape s \<Longrightarrow> rmsShape (sumLoop channelData j e s)"
proof (induction channelData j e s rule: sumLoop.induct)
  case (1 channelData j e s)
  show ?case
  proof (cases "j < e")
    case True
    with "1" show ?thesis
      by (subst sumLoop.simps) (simp add: add_shape square_shape)
  next
    case False
    with "1.prems" show ?thesis by (subst sumLoop.simps) simp
  qed
qed

lemma divide_shape: "rmsShape s \<Longrightarrow> 0 \<le> n \<Longrightarrow> rmsShape (js_divide s (Fin n))"
  by (cases s) (simp_all add: dbl_shape)

lemma sqrt_shape: "rmsShape v \<Longrightarrow> rmsShape (Math_sqrt v)"
  by (cases v) (simp_all add: dbl_shape)

lemma chunkRms_shape: "rmsShape (chunkRms channelData spp i)"
  by (simp add: chunkRms_def Let_def sqrt_shape divide_shape sumLoop_shape)

lemma rmsValues_shape: "v \<in> set (rmsValues channelData tp) \<Longrightarrow> rmsShape v"
  by (auto simp: rmsValues_eq chunkRms_shape)

lemma Math_max_shape_cases:
  assumes "\<forall>v\<in>set vs. rmsShape v"
  shows "(vs = [] \<and> Math_max vs = NInf) \<or> Math_max vs = NaN \<or> Math_max vs = PInf \<or>
         (\<exists>x. Math_max vs = Fin x \<and> Fin x \<in> set vs \<and>
              (\<forall>v\<in>set vs. \<exists>r. v = Fin r \<and> 0 \<le> r \<and> r \<le> x))"
  using assms
proof (induction vs)
  case Nil
  then show ?case by simp
next
  case (Cons v vs)
  then have sh: "rmsShape v" and rest: "\<forall>v\<in>set vs. rmsShape v" by simp_all
  from Cons.IH [OF rest] show ?case
  proof (elim disjE conjE exE)
    assume "vs = []" "Math_max vs = NInf"
    with sh show ?thesis by (cases v) auto
  next
    assume "Math_max vs = NaN"
    then show ?thesis by (cases v) auto
  next
    assume "Math_max vs = PInf"
    then show ?thesis by (cases v) auto
  next
    fix x
    assume mx: "Math_max vs = Fin x" and mem: "Fin x \<in> set vs"
      and bnd: "\<forall>v\<in>set vs. \<exists>r. v = Fin r \<and> 0 \<le> r \<and> r \<le> x"
    show ?thesis
    proof (cases v)
      case (Fin r)
      with sh have r0: "0 \<le> r" by simp
      have "Math_max (v # vs) = Fin (max r x)" using Fin mx by simp
      moreover have "Fin (max r x) \<in> set (v # vs)"
        using Fin mem by (auto simp: max_def)
      moreover have "\<forall>w\<in>set (v # vs). \<exists>q. w = Fin q \<and> 0 \<le> q \<and> q \<le> max r x"
        using Fin r0 bnd by (auto simp: max_def)
      ultimately show ?thesis by blast
    next
      case NaN
      then show ?thesis by simp
    next
      case PInf
      with mx show ?thesis by simp
    next
      case NInf
      with sh show ?thesis by simp
    qed
  qed
qed

lemma Math_max_bounded:
  assumes "\<forall>v\<in>set ws. \<exists>r. v = Fin r \<and> r \<le> m"
  shows "(ws = [] \<and> Math_max ws = NInf) \<or>
         (\<exists>y. Math_max ws = Fin y \<and> y \<le> m \<and> Fin y \<in> set ws \<and>
              (\<forall>v\<in>set ws. \<exists>r. v = Fin r \<and> r \<le> y))"
  using assms
proof (induction ws)
  case Nil
  then show ?case by simp
next
  case (Cons v ws)
  then obtain r where v: "v = Fin r" and r: "r \<le> m" by auto
  from Cons have rest: "\<forall>v\<in>set ws. \<exists>r. v = Fin r \<and> r \<le> m" by simp
  from Cons.IH [OF rest] show ?case
  proof (elim disjE conjE exE)
    assume "ws = []" "Math_max ws = NInf"
    with v r show ?thesis by simp
  next
    fix y
    assume "Math_max ws = Fin y" "y \<le> m" "Fin y \<in> set ws"
      "\<forall>v\<in>set ws. \<exists>r. v = Fin r \<and> r \<le> y"
    with v r show ?thesis
      by (auto simp: max_def)
  qed
qed

lemma Math_max_attained:
  assumes "\<forall>v\<in>set ws. \<exists>r. v = Fin r \<and> r \<le> m" and "Fin m \<in> set ws"
  shows "Math_max ws = Fin m"
proof -
  from Math_max_bounded [OF assms(1)] assms(2)
  obtain y where y: "Math_max ws = Fin y" "y \<le> m" "\<forall>v\<in>set ws. \<exists>r. v = Fin r \<and> r \<le> y"
    by auto
  from y(3) assms(2) have "m \<le> y" by auto
  with y show ?thesis by simp
qed

lemma isDouble_1: "isDouble 1"
  by (simp add: isDouble_def)

lemma quotient_in_unit:
  assumes "0 \<le> r" "r \<le> x" "0 < x"
  shows "\<exists>q. js_divide (Fin r) (Fin x) = Fin q \<and> 0 \<le> q \<and> q \<le> 1"
proof -
  have "0 \<le> r / x" "r / x \<le> 1" using assms by simp_all
  from dbl_between [OF isDouble_1 this] assms(3) show ?thesis by simp
qed

lemma quotient_self:
  assumes "0 < x"
  shows "js_divide (Fin x) (Fin x) = Fin 1"
proof -
  have "dbl 1 = Fin 1" using dbl_Fin [of 1] by simp
  with assms show ?thesis by simp
qed

lemma normalised_when_positive:
  assumes mx: "Math_max (rmsValues channelData tp) = Fin x" and x: "0 < x"
  shows "Math_max (map (\<lambda>val. js_divide val (Fin x)) (rmsValues channelData tp)) = Fin 1"
    and "\<forall>v\<in>set (map (\<lambda>val. js_divide val (Fin x)) (rmsValues channelData tp)).
           \<exists>r. v = Fin r \<and> 0 \<le> r \<and> r \<le> 1"
proof -
  let ?vals = "rmsValues channelData tp"
  have sh: "\<forall>v\<in>set ?vals. rmsShape v" by (simp add: rmsValues_shape)
  from Math_max_shape_cases [OF sh] mx
  have mem: "Fin x \<in> set ?vals"
    and bnd: "\<forall>v\<in>set ?vals. \<exists>r. v = Fin r \<and> 0 \<le> r \<and> r \<le> x"
    by auto
  let ?out = "map (\<lambda>val. js_divide val (Fin x)) ?vals"
  show each: "\<forall>v\<in>set ?out. \<exists>r. v = Fin r \<and> 0 \<le> r \<and> r \<le> 1"
  proof
    fix v assume "v \<in> set ?out"
    then obtain w where w: "w \<in> set ?vals" and v: "v = js_divide w (Fin x)" by auto
    from bnd w obtain r where r: "w = Fin r" "0 \<le> r" "r \<le> x" by auto
    from quotient_in_unit [OF r(2,3) x] v r(1)
    show "\<exists>r. v = Fin r \<and> 0 \<le> r \<and> r \<le> 1" by simp
  qed
  have one: "Fin 1 \<in> set ?out"
  proof -
    have "Fin 1 = js_divide (Fin x) (Fin x)" by (simp only: quotient_self [OF x])
    then show ?thesis unfolding set_map using mem by (rule image_eqI)
  qed
  from each have "\<forall>v\<in>set ?out. \<exists>r. v = Fin r \<and> r \<le> 1" by blast
  from Math_max_attained [OF this one]
  show "Math_max ?out = Fin 1" .
qed

lemma all_zero_when_max_zero:
  assumes "Math_max (rmsValues channelData tp) = Fin 0"
  shows "\<forall>v\<in>set (rmsValues channelData tp). v = Fin 0"
proof -
  let ?vals = "rmsValues channelData tp"
  have sh: "\<forall>v\<in>set ?vals. rmsShape v" by (simp add: rmsValues_shape)
  from Math_max_shape_cases [OF sh] assms
  have "\<forall>v\<in>set ?vals. \<exists>r. v = Fin r \<and> 0 \<le> r \<and> r \<le> 0" by auto
  then show ?thesis by fastforce
qed

text \<open>
  The part of the normalisation that holds: within the engine's limit, when the largest
  window value is a finite number greater than 0, every value is divided by it, the
  largest value of the envelope is exactly 1 and every value lies in \<open>[0, 1]\<close>; when it is
  0, the values are returned as they are, all of them 0.
\<close>

lemma normalisation_of_finite_maximum:
  assumes "targetPoints \<le> maxArguments engine"
  shows "Math_max (rmsValues channelData targetPoints) = Fin x \<Longrightarrow> 0 < x \<Longrightarrow>
           waveformData (onmessage engine channelData targetPoints) =
             map (\<lambda>val. js_divide val (Fin x)) (rmsValues channelData targetPoints) \<and>
           Math_max (waveformData (onmessage engine channelData targetPoints)) = Fin 1 \<and>
           (\<forall>v\<in>set (waveformData (onmessage engine channelData targetPoints)).
              \<exists>r. v = Fin r \<and> 0 \<le> r \<and> r \<le> 1)"
    and "Math_max (rmsValues channelData targetPoints) = Fin 0 \<Longrightarrow>
           waveformData (onmessage engine channelData targetPoints) =
             rmsValues channelData targetPoints \<and>
           (\<forall>v\<in>set (waveformData (onmessage engine channelData targetPoints)). v = Fin 0)"
proof -
  assume mx: "Math_max (rmsValues channelData targetPoints) = Fin x" and x: "0 < x"
  then have eq: "waveformData (onmessage engine channelData targetPoints) =
             map (\<lambda>val. js_divide val (Fin x)) (rmsValues channelData targetPoints)"
    by (simp add: onmessage_within_limit [OF assms])
  from normalised_when_positive [OF mx x] eq
  show "waveformData (onmessage engine channelData targetPoints) =
             map (\<lambda>val. js_divide val (Fin x)) (rmsValues channelData targetPoints) \<and>
           Math_max (waveformData (onmessage engine channelData targetPoints)) = Fin 1 \<and>
           (\<forall>v\<in>set (waveformData (onmessage engine channelData targetPoints)).
              \<exists>r. v = Fin r \<and> 0 \<le> r \<and> r \<le> 1)"
    by simp
next
  assume z: "Math_max (rmsValues channelData targetPoints) = Fin 0"
  then have eq: "waveformData (onmessage engine channelData targetPoints) =
                   rmsValues channelData targetPoints"
    by (simp add: onmessage_within_limit [OF assms])
  from all_zero_when_max_zero [OF z] eq
  show "waveformData (onmessage engine channelData targetPoints) =
             rmsValues channelData targetPoints \<and>
           (\<forall>v\<in>set (waveformData (onmessage engine channelData targetPoints)). v = Fin 0)"
    by simp
qed

subsection \<open>The claims about the worker\<close>

text \<open>
  C6, as the code has it. For every sample sequence, the empty one included, and every
  number of target points within the engine's limit on the arguments of a call, the
  envelope posted back has exactly that many values and no error. Beyond that limit
  \<^verbatim>\<open>Math.max(...waveformData)\<close> throws, the \<^verbatim>\<open>catch\<close> block answers, and the
  response holds an empty envelope and the message of the error.
\<close>

theorem envelope_length:
  "(targetPoints \<le> maxArguments engine \<longrightarrow>
      length (waveformData (onmessage engine channelData targetPoints)) = targetPoints \<and>
      error (onmessage engine channelData targetPoints) = None) \<and>
   (maxArguments engine < targetPoints \<longrightarrow>
      waveformData (onmessage engine channelData targetPoints) = [] \<and>
      error (onmessage engine channelData targetPoints) = Some (rangeErrorMessage engine))"
  by (simp add: onmessage_within_limit onmessage_over_limit length_rmsValues)

text \<open>On JavaScriptCore: three target points and three samples; 70000 target points.\<close>

theorem envelope_length_witness:
  "(3 :: nat) \<le> maxArguments javaScriptCore \<and>
   length (waveformData (onmessage javaScriptCore [Fin (1 / 4), Fin (1 / 2), Fin 1] 3)) = 3 \<and>
   error (onmessage javaScriptCore [Fin (1 / 4), Fin (1 / 2), Fin 1] 3) = None \<and>
   maxArguments javaScriptCore < 70000 \<and>
   waveformData (onmessage javaScriptCore [] 70000) = [] \<and>
   error (onmessage javaScriptCore [] 70000) = Some ''Maximum call stack size exceeded.''"
proof -
  have a: "(3 :: nat) \<le> maxArguments javaScriptCore" "maxArguments javaScriptCore < 70000"
    by (simp_all add: javaScriptCore_def)
  from envelope_length [of 3 javaScriptCore "[Fin (1 / 4), Fin (1 / 2), Fin 1]"] a(1)
  have b: "length (waveformData (onmessage javaScriptCore [Fin (1 / 4), Fin (1 / 2), Fin 1] 3)) = 3"
    "error (onmessage javaScriptCore [Fin (1 / 4), Fin (1 / 2), Fin 1] 3) = None"
    by simp_all
  from envelope_length [of 70000 javaScriptCore "[]"] a(2)
  have c: "waveformData (onmessage javaScriptCore [] 70000) = []"
    "error (onmessage javaScriptCore [] 70000) = Some ''Maximum call stack size exceeded.''"
    by (simp_all add: javaScriptCore_def)
  from a b c show ?thesis by blast
qed

text \<open>
  C6 as the claim states it fails: for 130000 samples and 130000 target points, on
  JavaScriptCore, the response holds no value at all.
\<close>

theorem envelope_length_counterexample:
  "(0 :: nat) < 130000 \<and>
   length (waveformData (onmessage javaScriptCore (replicate 130000 (Fin (1 / 2))) 130000)) = 0 \<and>
   error (onmessage javaScriptCore (replicate 130000 (Fin (1 / 2))) 130000) =
     Some ''Maximum call stack size exceeded.''"
proof -
  have "maxArguments javaScriptCore < 130000" by (simp add: javaScriptCore_def)
  from onmessage_over_limit [OF this]
  have "onmessage javaScriptCore (replicate 130000 (Fin (1 / 2))) 130000 =
          \<lparr>waveformData = [], error = Some (rangeErrorMessage javaScriptCore)\<rparr>" .
  then have "length (waveformData (onmessage javaScriptCore (replicate 130000 (Fin (1 / 2))) 130000)) = 0"
    and "error (onmessage javaScriptCore (replicate 130000 (Fin (1 / 2))) 130000) =
     Some (rangeErrorMessage javaScriptCore)"
    by (simp_all only: WaveformResponse.simps list.size)
  moreover have "rangeErrorMessage javaScriptCore = ''Maximum call stack size exceeded.''"
    by (simp add: javaScriptCore_def)
  moreover have "(0 :: nat) < 130000" by simp
  ultimately show ?thesis by (simp only: simp_thms)
qed

text \<open>
  C7. The claim gives an empty window the value 0 and puts every envelope value in
  \<open>[0, 1]\<close>. The code divides the empty sum by the window length 0: for two samples and
  three target points the chunk size is 0, every window is empty, and the envelope is NaN
  throughout, on every engine that takes three arguments.
\<close>

theorem short_input_gives_NaN:
  "3 \<le> maxArguments engine \<Longrightarrow>
     onmessage engine [Fin (1 / 2), Fin (1 / 2)] 3 =
       \<lparr>waveformData = [NaN, NaN, NaN], error = None\<rparr>"
  using short_input_all_NaN [of "[Fin (1 / 2), Fin (1 / 2)]" 3 engine]
  by (simp add: numeral_3_eq_3)

text \<open>JavaScriptCore is such an engine.\<close>

theorem short_input_gives_NaN_witness:
  "3 \<le> maxArguments javaScriptCore \<and>
   onmessage javaScriptCore [Fin (1 / 2), Fin (1 / 2)] 3 =
       \<lparr>waveformData = [NaN, NaN, NaN], error = None\<rparr>"
proof -
  have a: "3 \<le> maxArguments javaScriptCore" by (simp add: javaScriptCore_def)
  from short_input_gives_NaN [OF a] a show ?thesis by blast
qed

text \<open>
  C8. The claim takes the largest window value to be greater than 0 or equal to 0, and
  names the degenerate input as a case of 0 in which no division by zero occurs. For two
  samples and three target points the first window is computed as
  \<^verbatim>\<open>Math.sqrt(0 / 0)\<close>, every window value is NaN, the largest is NaN, which is neither
  greater than 0 nor 0, and the envelope posted is NaN throughout, not all zeros. A
  sample that is \<^verbatim>\<open>Infinity\<close> makes the largest window value \<^verbatim>\<open>Infinity\<close>, which is
  greater than 0, and the envelope \<^verbatim>\<open>Infinity / Infinity\<close>, NaN, so that its largest
  value is not 1. (When the largest window value is a finite number, the claim holds:
  \<open>normalisation_of_finite_maximum\<close>.)
\<close>

theorem degenerate_input_not_normalised:
  "chunkRms [Fin (1 / 2), Fin (1 / 2)] (2 div 3) 0 = Math_sqrt (js_divide (Fin 0) (Fin 0)) \<and>
   rmsValues [Fin (1 / 2), Fin (1 / 2)] 3 = [NaN, NaN, NaN] \<and>
   Math_max (rmsValues [Fin (1 / 2), Fin (1 / 2)] 3) = NaN \<and>
   \<not> js_less (Fin 0) (Math_max (rmsValues [Fin (1 / 2), Fin (1 / 2)] 3)) \<and>
   Math_max (rmsValues [Fin (1 / 2), Fin (1 / 2)] 3) \<noteq> Fin 0 \<and>
   waveformData (onmessage javaScriptCore [Fin (1 / 2), Fin (1 / 2)] 3) = [NaN, NaN, NaN] \<and>
   Math_max (waveformData (onmessage javaScriptCore [Fin (1 / 2), Fin (1 / 2)] 3)) = NaN \<and>
   rmsValues [PInf] 1 = [PInf] \<and>
   js_less (Fin 0) (Math_max (rmsValues [PInf] 1)) \<and>
   waveformData (onmessage javaScriptCore [PInf] 1) = [NaN] \<and>
   Math_max (waveformData (onmessage javaScriptCore [PInf] 1)) = NaN"
proof -
  have w: "chunkRms [Fin (1 / 2), Fin (1 / 2)] (2 div 3) 0 = Math_sqrt (js_divide (Fin 0) (Fin 0))"
    by (simp add: chunkRms_def sumLoop_empty)
  have r: "rmsValues [Fin (1 / 2), Fin (1 / 2)] 3 = [NaN, NaN, NaN]"
    using short_input_windows [of "[Fin (1 / 2), Fin (1 / 2)]" 3] by (simp add: numeral_3_eq_3)
  have a: "3 \<le> maxArguments javaScriptCore" "1 \<le> maxArguments javaScriptCore"
    by (simp_all add: javaScriptCore_def)
  have o: "waveformData (onmessage javaScriptCore [Fin (1 / 2), Fin (1 / 2)] 3) = [NaN, NaN, NaN]"
    by (simp add: onmessage_within_limit [OF a(1)] r)
  have s: "sumLoop [PInf] 0 (Suc 0) (Fin 0) = PInf"
    by (subst sumLoop.simps, simp, subst sumLoop.simps, simp)
  have i: "rmsValues [PInf] 1 = [PInf]"
    by (simp add: rmsValues_eq chunkRms_def s)
  have p: "waveformData (onmessage javaScriptCore [PInf] 1) = [NaN]"
    using onmessage_within_limit [OF a(2), of "[PInf]"] i by simp
  have m1: "Math_max (rmsValues [Fin (1 / 2), Fin (1 / 2)] 3) = NaN" unfolding r by simp
  have m2: "\<not> js_less (Fin 0) (Math_max (rmsValues [Fin (1 / 2), Fin (1 / 2)] 3))"
    unfolding m1 by simp
  have m3: "Math_max (rmsValues [Fin (1 / 2), Fin (1 / 2)] 3) \<noteq> Fin 0" unfolding m1 by simp
  have m4: "Math_max (waveformData (onmessage javaScriptCore [Fin (1 / 2), Fin (1 / 2)] 3)) = NaN"
    unfolding o by simp
  have m5: "js_less (Fin 0) (Math_max (rmsValues [PInf] 1))" unfolding i by simp
  have m6: "Math_max (waveformData (onmessage javaScriptCore [PInf] 1)) = NaN"
    unfolding p by simp
  from w r m1 m2 m3 o m4 i m5 p m6 show ?thesis by blast
qed

section \<open>Properties of the loop editor\<close>

subsection \<open>The clamp bounds in double arithmetic\<close>


lemma dbl_not_NaN [simp]: "dbl x \<noteq> NaN"
  by (simp add: dbl_def Let_def)



subsection \<open>The handlers\<close>
















subsection \<open>The claim about the loop editor\<close>


subsection \<open>Particular edits\<close>















section \<open>Properties of the playback scheduler\<close>

subsection \<open>What each function changes\<close>



lemma refsInStore_iff:
  "refsInStore s \<longleftrightarrow>
     (\<forall>i. sourceNodeRef s = Some i \<longrightarrow> i < length (sources s)) \<and>
     (\<forall>i. nextSourceRef s = Some i \<longrightarrow> i < length (sources s)) \<and>
     (\<forall>c. audioContextRef s = Some c \<longrightarrow> c < length (contexts s))"
  by (auto simp: refsInStore_def split: option.splits)

lemma stopSource_fields [simp]:
  "playingRecordingId (stopSource i s) = playingRecordingId s"
  "isLooping (stopSource i s) = isLooping s"
  "currentTime (stopSource i s) = currentTime s"
  "duration (stopSource i s) = duration s"
  "playHistory (stopSource i s) = playHistory s"
  "audioContextRef (stopSource i s) = audioContextRef s"
  "audioBufferRef (stopSource i s) = audioBufferRef s"
  "sourceNodeRef (stopSource i s) = sourceNodeRef s"
  "gainNodeRef (stopSource i s) = gainNodeRef s"
  "crossfadeGainNodeRef (stopSource i s) = crossfadeGainNodeRef s"
  "startTimeRef (stopSource i s) = startTimeRef s"
  "pauseTimeRef (stopSource i s) = pauseTimeRef s"
  "animationFrameRef (stopSource i s) = animationFrameRef s"
  "loopPointsRef (stopSource i s) = loopPointsRef s"
  "isLoopingRef (stopSource i s) = isLoopingRef s"
  "crossfadeScheduledRef (stopSource i s) = crossfadeScheduledRef s"
  "nextSourceRef (stopSource i s) = nextSourceRef s"
  "contexts (stopSource i s) = contexts s"
  "pendingFrames (stopSource i s) = pendingFrames s"
  "frameCounter (stopSource i s) = frameCounter s"
  "consoleErrors (stopSource i s) = consoleErrors s"
  "length (sources (stopSource i s)) = length (sources s)"
  by (simp_all add: stopSource_def)

lemma stopSource_nth:
  "j < length (sources s) \<Longrightarrow>
     sources (stopSource i s) ! j =
       (if j = i then (sources s ! j)\<lparr>srcStopped := True\<rparr> else sources s ! j)"
  by (simp add: stopSource_def nth_list_update)

lemma stopPlayback_fields [simp]:
  "playingRecordingId (stopPlayback s) = playingRecordingId s"
  "isLooping (stopPlayback s) = isLooping s"
  "currentTime (stopPlayback s) = currentTime s"
  "duration (stopPlayback s) = duration s"
  "playHistory (stopPlayback s) = playHistory s"
  "audioContextRef (stopPlayback s) = audioContextRef s"
  "audioBufferRef (stopPlayback s) = audioBufferRef s"
  "gainNodeRef (stopPlayback s) = gainNodeRef s"
  "crossfadeGainNodeRef (stopPlayback s) = crossfadeGainNodeRef s"
  "startTimeRef (stopPlayback s) = startTimeRef s"
  "pauseTimeRef (stopPlayback s) = pauseTimeRef s"
  "loopPointsRef (stopPlayback s) = loopPointsRef s"
  "isLoopingRef (stopPlayback s) = isLoopingRef s"
  "contexts (stopPlayback s) = contexts s"
  "frameCounter (stopPlayback s) = frameCounter s"
  "consoleErrors (stopPlayback s) = consoleErrors s"
  "length (sources (stopPlayback s)) = length (sources s)"
  "sourceNodeRef (stopPlayback s) = None"
  "nextSourceRef (stopPlayback s) = None"
  "animationFrameRef (stopPlayback s) = 0"
  "crossfadeScheduledRef (stopPlayback s) = False"
  by (simp_all add: stopPlayback_def Let_def cancelAnimationFrame_def split: option.splits)

lemma stopPlayback_pending:
  "pendingFrames (stopPlayback s) =
     (if animationFrameRef s \<noteq> 0 then pendingFrames s - {animationFrameRef s}
      else pendingFrames s)"
  by (simp add: stopPlayback_def Let_def cancelAnimationFrame_def split: option.splits)

lemma stopPlayback_nth:
  "j < length (sources s) \<Longrightarrow>
     sources (stopPlayback s) ! j =
       (if sourceNodeRef s = Some j \<or> nextSourceRef s = Some j
        then (sources s ! j)\<lparr>srcStopped := True\<rparr> else sources s ! j)"
  by (auto simp: stopPlayback_def Let_def cancelAnimationFrame_def stopSource_nth
      split: option.splits)



lemma stopPlayback_noop:
  assumes "sourceNodeRef s = None" "nextSourceRef s = None" "animationFrameRef s = 0"
    "\<not> crossfadeScheduledRef s"
  shows "stopPlayback s = s"
  using assms by (simp add: stopPlayback_def)

lemma stopPlayback_idem: "stopPlayback (stopPlayback s) = stopPlayback s"
  by (rule stopPlayback_noop) simp_all

lemma stopPlayback_srcStopped:
  assumes "ownsLive s"
  shows "allSourcesStopped (stopPlayback s)"
  unfolding allSourcesStopped_def list_all_length
proof (intro allI impI)
  fix j assume "j < length (sources (stopPlayback s))"
  then have j: "j < length (sources s)" by simp
  with assms have "srcStopped (sources s ! j) \<or> sourceNodeRef s = Some j \<or> nextSourceRef s = Some j"
    by (simp add: ownsLive_def)
  with j show "srcStopped (sources (stopPlayback s) ! j)"
    by (auto simp: stopPlayback_nth)
qed

lemma stopPlayback_noPending:
  assumes "ownsLive s"
  shows "pendingFrames (stopPlayback s) = {}"
  using assms by (auto simp: stopPlayback_pending ownsLive_def)

lemma stopPlayback_wellFormed:
  assumes "wellFormed s"
  shows "wellFormed (stopPlayback s)"
proof -
  from assms have o: "ownsLive s" and r: "refsInStore s" by (simp_all add: wellFormed_def)
  have "refsInStore (stopPlayback s)" using r by (simp add: refsInStore_iff)
  moreover have "ownsLive (stopPlayback s)"
    using o stopPlayback_noPending [OF o] stopPlayback_srcStopped [OF o]
    by (simp add: ownsLive_def allSourcesStopped_def list_all_length)
  ultimately show ?thesis by (simp add: wellFormed_def)
qed

lemma closeContext_fields [simp]:
  "playingRecordingId (closeContext s) = playingRecordingId s"
  "isLooping (closeContext s) = isLooping s"
  "currentTime (closeContext s) = currentTime s"
  "duration (closeContext s) = duration s"
  "playHistory (closeContext s) = playHistory s"
  "audioContextRef (closeContext s) = audioContextRef s"
  "audioBufferRef (closeContext s) = audioBufferRef s"
  "sourceNodeRef (closeContext s) = sourceNodeRef s"
  "gainNodeRef (closeContext s) = gainNodeRef s"
  "crossfadeGainNodeRef (closeContext s) = crossfadeGainNodeRef s"
  "startTimeRef (closeContext s) = startTimeRef s"
  "pauseTimeRef (closeContext s) = pauseTimeRef s"
  "animationFrameRef (closeContext s) = animationFrameRef s"
  "loopPointsRef (closeContext s) = loopPointsRef s"
  "isLoopingRef (closeContext s) = isLoopingRef s"
  "crossfadeScheduledRef (closeContext s) = crossfadeScheduledRef s"
  "nextSourceRef (closeContext s) = nextSourceRef s"
  "sources (closeContext s) = sources s"
  "pendingFrames (closeContext s) = pendingFrames s"
  "frameCounter (closeContext s) = frameCounter s"
  "consoleErrors (closeContext s) = consoleErrors s"
  "length (contexts (closeContext s)) = length (contexts s)"
  by (simp_all add: closeContext_def split: option.splits)

lemma closeContext_nth:
  "c < length (contexts s) \<Longrightarrow>
     contexts (closeContext s) ! c =
       (if audioContextRef s = Some c then Closed else contexts s ! c)"
  by (auto simp: closeContext_def nth_list_update split: option.splits)

lemma closeContext_allClosed:
  assumes "ownsLive s"
  shows "allContextsClosed (closeContext s)"
  unfolding allContextsClosed_def list_all_length
proof (intro allI impI)
  fix c assume "c < length (contexts (closeContext s))"
  then have c: "c < length (contexts s)" by simp
  with assms have "contexts s ! c = Closed \<or> audioContextRef s = Some c"
    by (simp add: ownsLive_def)
  with c show "contexts (closeContext s) ! c = Closed"
    by (auto simp: closeContext_nth)
qed

lemma closeContext_wellFormed:
  assumes "wellFormed s"
  shows "wellFormed (closeContext s)"
proof -
  from assms have o: "ownsLive s" and r: "refsInStore s" by (simp_all add: wellFormed_def)
  have "refsInStore (closeContext s)" using r by (simp add: refsInStore_iff)
  moreover have "ownsLive (closeContext s)"
    using o closeContext_allClosed [OF o]
    by (simp add: ownsLive_def allContextsClosed_def list_all_length)
  ultimately show ?thesis by (simp add: wellFormed_def)
qed

lemma scheduleTick_fields [simp]:
  "playingRecordingId (scheduleTick s) = playingRecordingId s"
  "isLooping (scheduleTick s) = isLooping s"
  "currentTime (scheduleTick s) = currentTime s"
  "duration (scheduleTick s) = duration s"
  "playHistory (scheduleTick s) = playHistory s"
  "audioContextRef (scheduleTick s) = audioContextRef s"
  "audioBufferRef (scheduleTick s) = audioBufferRef s"
  "sourceNodeRef (scheduleTick s) = sourceNodeRef s"
  "gainNodeRef (scheduleTick s) = gainNodeRef s"
  "crossfadeGainNodeRef (scheduleTick s) = crossfadeGainNodeRef s"
  "startTimeRef (scheduleTick s) = startTimeRef s"
  "pauseTimeRef (scheduleTick s) = pauseTimeRef s"
  "loopPointsRef (scheduleTick s) = loopPointsRef s"
  "isLoopingRef (scheduleTick s) = isLoopingRef s"
  "crossfadeScheduledRef (scheduleTick s) = crossfadeScheduledRef s"
  "nextSourceRef (scheduleTick s) = nextSourceRef s"
  "sources (scheduleTick s) = sources s"
  "contexts (scheduleTick s) = contexts s"
  "consoleErrors (scheduleTick s) = consoleErrors s"
  "animationFrameRef (scheduleTick s) = Suc (frameCounter s)"
  "frameCounter (scheduleTick s) = Suc (frameCounter s)"
  "pendingFrames (scheduleTick s) = insert (Suc (frameCounter s)) (pendingFrames s)"
  by (simp_all add: scheduleTick_def requestAnimationFrame_def Let_def)

lemma scheduleTick_wellFormed:
  assumes "wellFormed s" "pendingFrames s = {}"
  shows "wellFormed (scheduleTick s)"
  using assms by (simp add: wellFormed_def refsInStore_iff ownsLive_def)

lemma scheduleTick_sessionActive:
  assumes "sessionActive s"
  shows "sessionActive (scheduleTick s)"
  using assms by (simp add: sessionActive_def split: option.splits)



lemma stopPlayback_contexts_update:
  "stopPlayback (s\<lparr>contexts := X\<rparr>) = (stopPlayback s)\<lparr>contexts := X\<rparr>"
  by (simp add: stopPlayback_def stopSource_def cancelAnimationFrame_def Let_def
      split: option.splits)

lemma startPlayback_fields [simp]:
  "playingRecordingId (startPlayback startFrom fadeIn now s) = playingRecordingId s"
  "isLooping (startPlayback startFrom fadeIn now s) = isLooping s"
  "currentTime (startPlayback startFrom fadeIn now s) = currentTime s"
  "duration (startPlayback startFrom fadeIn now s) = duration s"
  "playHistory (startPlayback startFrom fadeIn now s) = playHistory s"
  "audioContextRef (startPlayback startFrom fadeIn now s) = audioContextRef s"
  "audioBufferRef (startPlayback startFrom fadeIn now s) = audioBufferRef s"
  "gainNodeRef (startPlayback startFrom fadeIn now s) = gainNodeRef s"
  "loopPointsRef (startPlayback startFrom fadeIn now s) = loopPointsRef s"
  "isLoopingRef (startPlayback startFrom fadeIn now s) = isLoopingRef s"
  "frameCounter (startPlayback startFrom fadeIn now s) = frameCounter s"
  "length (contexts (startPlayback startFrom fadeIn now s)) = length (contexts s)"
  by (simp_all add: startPlayback_def Let_def stopPlayback_contexts_update
      split: option.splits)

text \<open>The offset and the play duration a start uses.\<close>

lemma startPlayback_started:
  assumes "audioContextRef s = Some c" "audioBufferRef s = Some b" "gainNodeRef s = Some g"
    and "contexts s ! c \<noteq> Closed"
  shows "sources (startPlayback startFrom fadeIn now s) =
           sources (stopPlayback s) @
             [\<lparr>srcOffset = (if isLoopingRef s
                              then (case loopPointsRef s of None \<Rightarrow> startFrom
                                    | Some lp \<Rightarrow> max startFrom (start lp))
                              else startFrom),
               srcDuration = (if isLoopingRef s
                              then (case loopPointsRef s of None \<Rightarrow> None
                                    | Some lp \<Rightarrow> Some (end' lp - max startFrom (start lp)))
                              else None),
               srcStopped = False\<rparr>]"
    and "sourceNodeRef (startPlayback startFrom fadeIn now s) = Some (length (sources s))"
    and "nextSourceRef (startPlayback startFrom fadeIn now s) = None"
    and "animationFrameRef (startPlayback startFrom fadeIn now s) = 0"
    and "pendingFrames (startPlayback startFrom fadeIn now s) = pendingFrames (stopPlayback s)"
    and "startTimeRef (startPlayback startFrom fadeIn now s) = now"
    and "pauseTimeRef (startPlayback startFrom fadeIn now s) =
           (if isLoopingRef s
            then (case loopPointsRef s of None \<Rightarrow> startFrom
                  | Some lp \<Rightarrow> max startFrom (start lp))
            else startFrom)"
    and "contexts (startPlayback startFrom fadeIn now s) =
           (if contexts s ! c = Suspended then (contexts s)[c := Running] else contexts s)"
    and "consoleErrors (startPlayback startFrom fadeIn now s) = consoleErrors s"
  using assms
  by (simp_all add: startPlayback_def Let_def stopPlayback_contexts_update max_def
      split: option.splits)

lemma startPlayback_not_started:
  assumes "audioContextRef s = None \<or> audioBufferRef s = None \<or> gainNodeRef s = None \<or>
           (\<exists>c. audioContextRef s = Some c \<and> contexts s ! c = Closed)"
  shows "\<exists>msg. startPlayback startFrom fadeIn now s = s\<lparr>consoleErrors := consoleErrors s @ [msg]\<rparr>"
  using assms by (auto simp: startPlayback_def split: option.splits)

lemma startPlayback_wellFormed:
  assumes "wellFormed s"
  shows "wellFormed (startPlayback startFrom fadeIn now s)"
proof (cases "\<exists>c b g. audioContextRef s = Some c \<and> audioBufferRef s = Some b \<and>
                gainNodeRef s = Some g \<and> contexts s ! c \<noteq> Closed")
  case True
  then obtain c b g where rdy: "audioContextRef s = Some c" "audioBufferRef s = Some b"
    "gainNodeRef s = Some g" "contexts s ! c \<noteq> Closed" by blast
  note st = startPlayback_started [OF rdy, of startFrom fadeIn now]
  from assms have o: "ownsLive s" and r: "refsInStore s" by (simp_all add: wellFormed_def)
  have stopped: "\<forall>j<length (sources s). srcStopped (sources (stopPlayback s) ! j)"
    using stopPlayback_srcStopped [OF o] by (simp add: allSourcesStopped_def list_all_length)
  have "refsInStore (startPlayback startFrom fadeIn now s)"
    using r rdy by (simp add: refsInStore_iff st)
  moreover have "ownsLive (startPlayback startFrom fadeIn now s)"
    unfolding ownsLive_def
  proof (intro conjI ballI)
    fix i assume "i \<in> {..<length (sources (startPlayback startFrom fadeIn now s))}"
    then have "i < length (sources s) \<or> i = length (sources s)" by (auto simp: st)
    then show "srcStopped (sources (startPlayback startFrom fadeIn now s) ! i) \<or>
               sourceNodeRef (startPlayback startFrom fadeIn now s) = Some i \<or>
               nextSourceRef (startPlayback startFrom fadeIn now s) = Some i"
      using stopped by (auto simp: st nth_append)
  next
    fix c' assume "c' \<in> {..<length (contexts (startPlayback startFrom fadeIn now s))}"
    then have c': "c' < length (contexts s)" by simp
    with o have "contexts s ! c' = Closed \<or> audioContextRef s = Some c'"
      by (simp add: ownsLive_def)
    with c' show "contexts (startPlayback startFrom fadeIn now s) ! c' = Closed \<or>
                  audioContextRef (startPlayback startFrom fadeIn now s) = Some c'"
      using rdy by (auto simp: st nth_list_update)
  next
    fix f assume "f \<in> pendingFrames (startPlayback startFrom fadeIn now s)"
    then show "f = animationFrameRef (startPlayback startFrom fadeIn now s)"
      and "f \<noteq> 0"
      using stopPlayback_noPending [OF o] by (simp_all add: st)
  qed
  ultimately show ?thesis by (simp add: wellFormed_def)
next
  case False
  then have "audioContextRef s = None \<or> audioBufferRef s = None \<or> gainNodeRef s = None \<or>
           (\<exists>c. audioContextRef s = Some c \<and> contexts s ! c = Closed)"
    by (cases "audioContextRef s"; cases "audioBufferRef s"; cases "gainNodeRef s") auto
  from startPlayback_not_started [OF this, of startFrom fadeIn now]
  obtain msg where "startPlayback startFrom fadeIn now s = s\<lparr>consoleErrors := consoleErrors s @ [msg]\<rparr>"
    by blast
  with assms show ?thesis
    by (simp add: wellFormed_def refsInStore_iff ownsLive_def)
qed



lemma wellFormed_other_fields [simp]:
  "wellFormed (s\<lparr>currentTime := t\<rparr>) = wellFormed s"
  "wellFormed (s\<lparr>playingRecordingId := p, isLooping := l, currentTime := t, isLoopingRef := r\<rparr>)
     = wellFormed s"
  "wellFormed (s\<lparr>consoleErrors := e\<rparr>) = wellFormed s"
  by (simp_all add: wellFormed_def refsInStore_iff ownsLive_def)

lemma wellFormed_frame_run:
  assumes "wellFormed s"
  shows "wellFormed (s\<lparr>pendingFrames := pendingFrames s - {fid}\<rparr>)"
  using assms by (simp add: wellFormed_def refsInStore_iff ownsLive_def)

lemma only_pending_frame:
  assumes "wellFormed s" "fid \<in> pendingFrames s"
  shows "pendingFrames s - {fid} = {}" and "animationFrameRef s = fid" and "fid \<noteq> 0"
proof -
  from assms(1) have own: "\<forall>f\<in>pendingFrames s. f = animationFrameRef s \<and> f \<noteq> 0"
    by (simp add: wellFormed_def ownsLive_def)
  with assms(2) show "animationFrameRef s = fid" and "fid \<noteq> 0" by auto
  with own show "pendingFrames s - {fid} = {}" by auto
qed

lemma awaitsResume_stopPlayback [simp]: "awaitsResume (stopPlayback s) = awaitsResume s"
  by (simp add: awaitsResume_def split: option.splits)

lemma awaitsResume_currentTime [simp]: "awaitsResume (s\<lparr>currentTime := t\<rparr>) = awaitsResume s"
  by (simp add: awaitsResume_def split: option.splits)

text \<open>The three ways a tick can go.\<close>

lemma updatePlayback_restart:
  assumes "audioContextRef s = Some c" "audioBufferRef s = Some b"
    and "\<not> awaitsResume s"
    and "isLoopingRef s" "loopPointsRef s = Some lp"
    and "end' lp \<le> pauseTimeRef s + (now - startTimeRef s)"
  shows "updatePlayback now s =
           scheduleTick (startPlayback (start lp) False now
             (stopPlayback (s\<lparr>currentTime := pauseTimeRef s + (now - startTimeRef s)\<rparr>)))"
  using assms by (simp add: updatePlayback_def Let_def)

lemma updatePlayback_end:
  assumes "audioContextRef s = Some c" "audioBufferRef s = Some b"
    and "\<not> isLoopingRef s"
    and "bufferDuration b \<le> pauseTimeRef s + (now - startTimeRef s)"
  shows "updatePlayback now s =
           (stopPlayback (s\<lparr>currentTime := pauseTimeRef s + (now - startTimeRef s)\<rparr>))
             \<lparr>playingRecordingId := None, isLooping := False, currentTime := 0,
              isLoopingRef := False\<rparr>"
  using assms by (simp add: updatePlayback_def Let_def)

lemma updatePlayback_continue:
  assumes "audioContextRef s = Some c" "audioBufferRef s = Some b"
    and "\<And>lp. isLoopingRef s \<Longrightarrow> loopPointsRef s = Some lp \<Longrightarrow>
               pauseTimeRef s + (now - startTimeRef s) < end' lp"
    and "\<not> isLoopingRef s \<Longrightarrow> pauseTimeRef s + (now - startTimeRef s) < bufferDuration b"
  shows "updatePlayback now s =
           scheduleTick (s\<lparr>currentTime := pauseTimeRef s + (now - startTimeRef s)\<rparr>)"
  using assms by (auto simp: updatePlayback_def Let_def split: option.splits if_splits)

lemma updatePlayback_wellFormed:
  assumes "wellFormed s" "pendingFrames s = {}"
  shows "wellFormed (updatePlayback now s)"
proof (cases "audioContextRef s")
  case None
  with assms show ?thesis by (simp add: updatePlayback_def)
next
  case c: (Some c)
  show ?thesis
  proof (cases "audioBufferRef s")
    case None
    with assms c show ?thesis by (simp add: updatePlayback_def)
  next
    case b: (Some b)
    let ?pos = "pauseTimeRef s + (now - startTimeRef s)"
    let ?s1 = "s\<lparr>currentTime := ?pos\<rparr>"
    have w1: "wellFormed ?s1" using assms by simp
    have p1: "pendingFrames ?s1 = {}" using assms by simp
    have w2: "wellFormed (stopPlayback ?s1)" by (rule stopPlayback_wellFormed [OF w1])
    have p2: "pendingFrames (stopPlayback ?s1) = {}"
      using p1 by (simp add: stopPlayback_pending)
    have tick: "wellFormed (scheduleTick ?s1)" by (rule scheduleTick_wellFormed [OF w1 p1])
    have a: "\<And>x. wellFormed (startPlayback x False now (scheduleTick (stopPlayback ?s1)))"
      by (intro startPlayback_wellFormed scheduleTick_wellFormed w2 p2)
    have p3: "\<And>x. pendingFrames (startPlayback x False now (stopPlayback ?s1)) = {}"
    proof -
      fix x
      show "pendingFrames (startPlayback x False now (stopPlayback ?s1)) = {}"
        using p2 by (auto simp: startPlayback_def Let_def stopPlayback_contexts_update
            stopPlayback_idem split: option.splits)
    qed
    have b': "\<And>x. wellFormed (scheduleTick (startPlayback x False now (stopPlayback ?s1)))"
      by (intro scheduleTick_wellFormed startPlayback_wellFormed w2 p3)
    have e: "wellFormed ((stopPlayback ?s1)\<lparr>playingRecordingId := None, isLooping := False,
                currentTime := 0, isLoopingRef := False\<rparr>)"
      using w2 by simp
    show ?thesis
      using c b tick a b' e
      by (simp add: updatePlayback_def Let_def split: option.splits)
  qed
qed

lemma fireFrame_wellFormed:
  assumes "wellFormed s"
  shows "wellFormed (fireFrame fid now s)"
proof (cases "fid \<in> pendingFrames s")
  case True
  have "wellFormed (updatePlayback now (s\<lparr>pendingFrames := pendingFrames s - {fid}\<rparr>))"
    using only_pending_frame(1) [OF assms True] wellFormed_frame_run [OF assms, of fid]
    by (intro updatePlayback_wellFormed) simp_all
  with True show ?thesis by (simp add: fireFrame_def)
next
  case False
  with assms show ?thesis by (simp add: fireFrame_def)
qed



lemma wellFormed_eqI:
  assumes "sources s' = sources s" "contexts s' = contexts s"
    "sourceNodeRef s' = sourceNodeRef s" "nextSourceRef s' = nextSourceRef s"
    "audioContextRef s' = audioContextRef s" "pendingFrames s' = pendingFrames s"
    "animationFrameRef s' = animationFrameRef s"
  shows "wellFormed s' = wellFormed s"
  using assms by (simp add: wellFormed_def refsInStore_iff ownsLive_def)

lemma initial_wellFormed: "wellFormed initial"
  by (simp add: wellFormed_def refsInStore_iff ownsLive_def initial_def)

lemma startPlayback_pending_empty:
  assumes "pendingFrames s = {}"
  shows "pendingFrames (startPlayback startFrom fadeIn now s) = {}"
  using assms
  by (auto simp: startPlayback_def Let_def stopPlayback_contexts_update stopPlayback_pending
      split: option.splits)

text \<open>The state after the teardown that opens every call of \<open>playRecording\<close>.\<close>

lemma teardown_released:
  assumes "wellFormed s"
  shows "wellFormed (closeContext (stopPlayback s))"
    and "allSourcesStopped (closeContext (stopPlayback s))"
    and "allContextsClosed (closeContext (stopPlayback s))"
    and "pendingFrames (closeContext (stopPlayback s)) = {}"
proof -
  from assms have o: "ownsLive s" by (simp add: wellFormed_def)
  have w: "wellFormed (stopPlayback s)" by (rule stopPlayback_wellFormed [OF assms])
  then have o': "ownsLive (stopPlayback s)" by (simp add: wellFormed_def)
  show "wellFormed (closeContext (stopPlayback s))" by (rule closeContext_wellFormed [OF w])
  show "allSourcesStopped (closeContext (stopPlayback s))"
    using stopPlayback_srcStopped [OF o] by (simp add: allSourcesStopped_def)
  show "allContextsClosed (closeContext (stopPlayback s))" by (rule closeContext_allClosed [OF o'])
  show "pendingFrames (closeContext (stopPlayback s)) = {}"
    using stopPlayback_noPending [OF o] by simp
qed

text \<open>\<^verbatim>\<open>new AudioContext()\<close> after the teardown.\<close>

lemma newContext_wellFormed:
  assumes "wellFormed s" "allContextsClosed s"
  shows "wellFormed (s\<lparr>contexts := contexts s @ [st], audioContextRef := Some (length (contexts s))\<rparr>)"
proof -
  from assms(2) have closed: "\<forall>c<length (contexts s). contexts s ! c = Closed"
    by (simp add: allContextsClosed_def list_all_length)
  with assms(1) show ?thesis
    by (auto simp: wellFormed_def refsInStore_iff ownsLive_def nth_append)
qed

lemma playRecording_toggle:
  assumes "seenPlayingRecordingId r = Some recId" "seenIsLooping r = loop"
  shows "playRecording r recId audioBlob loop loopPoints env s =
           (Fulfilled,
            (closeContext (stopPlayback s))
              \<lparr>audioContextRef := None, audioBufferRef := None, gainNodeRef := None,
               playingRecordingId := None, isLooping := False, currentTime := 0,
               duration := 0, isLoopingRef := False\<rparr>)"
  using assms by (simp add: playRecording_def)

lemma playRecording_failure:
  assumes "\<not> (seenPlayingRecordingId r = Some recId \<and> seenIsLooping r = loop)"
    and "decodeAudioData audioBlob = Inl err"
  shows "playRecording r recId audioBlob loop loopPoints env s =
           (Fulfilled,
            (closeContext (stopPlayback s))
              \<lparr>contexts := contexts (closeContext (stopPlayback s)) @
                   [if createdSuspended env then Suspended else Running],
               audioContextRef := Some (length (contexts s)),
               consoleErrors := consoleErrors s @ [''Error playing audio:''],
               isLoopingRef := False, playingRecordingId := None, isLooping := False\<rparr>)"
  using assms by (auto simp: playRecording_def Let_def)

lemma playRecording_success:
  assumes "\<not> (seenPlayingRecordingId r = Some recId \<and> seenIsLooping r = loop)"
    and "decodeAudioData audioBlob = Inr audioBuffer"
  shows "playRecording r recId audioBlob loop loopPoints env s =
           (Fulfilled,
            scheduleTick
              (startPlayback
                 (if loop then (case loopPoints of None \<Rightarrow> 0 | Some lp \<Rightarrow> start lp) else 0)
                 False (contextTime env)
                 ((closeContext (stopPlayback s))
                    \<lparr>contexts := contexts (closeContext (stopPlayback s)) @
                         [if createdSuspended env then Suspended else Running],
                     audioContextRef := Some (length (contexts s)),
                     audioBufferRef := Some audioBuffer,
                     gainNodeRef := Some (length (contexts s)),
                     loopPointsRef := loopPoints,
                     isLoopingRef := loop,
                     playingRecordingId := Some recId,
                     isLooping := loop,
                     duration := bufferDuration audioBuffer,
                     currentTime := 0,
                     playHistory := addToHistory recId (dateNow env) (playHistory s)\<rparr>)))"
  using assms by (auto simp: playRecording_def Let_def)

lemma playRecording_fulfils: "fst (playRecording r recId audioBlob loop loopPoints env s) = Fulfilled"
  by (simp add: playRecording_def Let_def split: sum.splits)

lemma playRecording_wellFormed:
  assumes "wellFormed s"
  shows "wellFormed (snd (playRecording r recId audioBlob loop loopPoints env s))"
proof -
  let ?t = "closeContext (stopPlayback s)"
  note td = teardown_released [OF assms]
  let ?n = "?t\<lparr>contexts := contexts ?t @ [if createdSuspended env then Suspended else Running],
               audioContextRef := Some (length (contexts ?t))\<rparr>"
  have wn: "wellFormed ?n" by (rule newContext_wellFormed [OF td(1) td(3)])
  have pn: "pendingFrames ?n = {}" using td(4) by simp
  show ?thesis
  proof (cases "seenPlayingRecordingId r = Some recId \<and> seenIsLooping r = loop")
    case True
    then have eq: "snd (playRecording r recId audioBlob loop loopPoints env s) =
        ?t\<lparr>audioContextRef := None, audioBufferRef := None, gainNodeRef := None,
               playingRecordingId := None, isLooping := False, currentTime := 0,
               duration := 0, isLoopingRef := False\<rparr>"
      by (simp add: playRecording_toggle)
    from td(1) td(3) show ?thesis
      unfolding eq
      by (auto simp: wellFormed_def refsInStore_iff ownsLive_def allContextsClosed_def
          list_all_length)
  next
    case False
    show ?thesis
    proof (cases "decodeAudioData audioBlob")
      case (Inl err)
      have "wellFormed (?n\<lparr>consoleErrors := consoleErrors s @ [''Error playing audio:''],
               isLoopingRef := False, playingRecordingId := None, isLooping := False\<rparr>) =
            wellFormed ?n"
        by (rule wellFormed_eqI) simp_all
      with wn show ?thesis by (simp add: playRecording_failure [OF False Inl])
    next
      case (Inr audioBuffer)
      let ?s3 = "?n\<lparr>audioBufferRef := Some audioBuffer,
                     gainNodeRef := Some (length (contexts s)),
                     loopPointsRef := loopPoints,
                     isLoopingRef := loop,
                     playingRecordingId := Some recId,
                     isLooping := loop,
                     duration := bufferDuration audioBuffer,
                     currentTime := 0,
                     playHistory := addToHistory recId (dateNow env) (playHistory s)\<rparr>"
      have "wellFormed ?s3 = wellFormed ?n" by (rule wellFormed_eqI) simp_all
      with wn have w3: "wellFormed ?s3" by simp
      have p3: "pendingFrames ?s3 = {}" using pn by simp
      have "wellFormed (scheduleTick (startPlayback
                 (if loop then (case loopPoints of None \<Rightarrow> 0 | Some lp \<Rightarrow> start lp) else 0)
                 False (contextTime env) ?s3))"
        by (intro scheduleTick_wellFormed startPlayback_wellFormed startPlayback_pending_empty w3 p3)
      then show ?thesis by (simp add: playRecording_success [OF False Inr])
    qed
  qed
qed



text \<open>While a call of \<open>playRecording\<close> waits at an \<^verbatim>\<open>await\<close>, no tick can run: after
  the teardown that opens the call no frame is pending, so the callback of any frame
  leaves the state as it is.\<close>

lemma no_tick_during_play:
  assumes "wellFormed s"
  shows "fireFrame fid now (closeContext (stopPlayback s)) = closeContext (stopPlayback s)"
  using teardown_released(4) [OF assms] by (simp add: fireFrame_def)

lemma reachable_wellFormed: "reachable s \<Longrightarrow> wellFormed s"
proof (induction rule: reachable.induct)
  case start
  show ?case by (rule initial_wellFormed)
next
  case (play s r recId audioBlob loop loopPoints env)
  then show ?case by (simp add: playRecording_wellFormed)
next
  case (stop s)
  then show ?case by (simp add: stopPlayback_wellFormed)
next
  case (tick s fid now)
  then show ?case by (simp add: fireFrame_wellFormed)
qed

lemma loopSession_value:
  "loopSession =
   \<lparr>playingRecordingId = Some ''A'', isLooping = True, currentTime = 0, duration = 10,
      playHistory = [\<lparr>recordingId = ''A'', timestamp = 1000\<rparr>], audioContextRef = Some 0,
      audioBufferRef = Some \<lparr>bufferDuration = 10\<rparr>, sourceNodeRef = Some 0,
      gainNodeRef = Some 0, crossfadeGainNodeRef = Some 0, startTimeRef = 0, pauseTimeRef = 2,
      animationFrameRef = 1, loopPointsRef = Some \<lparr>start = 2, end' = 5\<rparr>, isLoopingRef = True,
      crossfadeScheduledRef = False, nextSourceRef = None, contexts = [Running],
      sources = [\<lparr>srcOffset = 2, srcDuration = Some 3, srcStopped = False\<rparr>],
      pendingFrames = {1}, frameCounter = 1, consoleErrors = []\<rparr>"
  by (simp add: loopSession_def playRecording_def render_def initial_def closeContext_def stopPlayback_def
      Let_def startPlayback_def scheduleTick_def requestAnimationFrame_def addToHistory_def)

lemma normalSession_value:
  "normalSession =
   \<lparr>playingRecordingId = Some ''A'', isLooping = False, currentTime = 0, duration = 10,
      playHistory = [\<lparr>recordingId = ''A'', timestamp = 1000\<rparr>], audioContextRef = Some 0,
      audioBufferRef = Some \<lparr>bufferDuration = 10\<rparr>, sourceNodeRef = Some 0,
      gainNodeRef = Some 0, crossfadeGainNodeRef = Some 0, startTimeRef = 0, pauseTimeRef = 0,
      animationFrameRef = 1, loopPointsRef = None, isLoopingRef = False,
      crossfadeScheduledRef = False, nextSourceRef = None, contexts = [Running],
      sources = [\<lparr>srcOffset = 0, srcDuration = None, srcStopped = False\<rparr>],
      pendingFrames = {1}, frameCounter = 1, consoleErrors = []\<rparr>"
  by (simp add: normalSession_def playRecording_def render_def initial_def closeContext_def stopPlayback_def
      Let_def startPlayback_def scheduleTick_def requestAnimationFrame_def addToHistory_def)

lemma loopSession_reachable: "reachable loopSession"
  unfolding loopSession_def by (intro reachable.play reachable.start)

lemma normalSession_reachable: "reachable normalSession"
  unfolding normalSession_def by (intro reachable.play reachable.start)

lemma loopSession_wellFormed: "wellFormed loopSession"
  by (rule reachable_wellFormed [OF loopSession_reachable])

lemma normalSession_wellFormed: "wellFormed normalSession"
  by (rule reachable_wellFormed [OF normalSession_reachable])

subsection \<open>Starting a source\<close>

text \<open>
  C10. Whenever a source is started (the refs are set, the context is not closed, and
  the offset and duration of the start are not negative) while \<open>isLoopingRef\<close> holds and
  loop points are set, the offset it starts at is the larger of the requested offset and
  the loop start, and it is scheduled to play for \<open>end - offset\<close> seconds, so that it
  stops by itself at the loop end; the position tracking restarts from that offset at the
  current clock value.
\<close>

theorem loop_start_offset_and_duration:
  assumes "audioContextRef s = Some c" "audioBufferRef s = Some b" "gainNodeRef s = Some g"
    and "contexts s ! c \<noteq> Closed"
    and "isLoopingRef s" "loopPointsRef s = Some lp"
    and "0 \<le> max startFrom (start lp)" "max startFrom (start lp) \<le> end' lp"
  shows "sourceNodeRef (startPlayback startFrom fadeIn now s) = Some (length (sources s)) \<and>
         sources (startPlayback startFrom fadeIn now s) ! length (sources s) =
           \<lparr>srcOffset = max startFrom (start lp),
            srcDuration = Some (end' lp - max startFrom (start lp)),
            srcStopped = False\<rparr> \<and>
         srcOffset (sources (startPlayback startFrom fadeIn now s) ! length (sources s)) +
           the (srcDuration (sources (startPlayback startFrom fadeIn now s) ! length (sources s)))
           = end' lp \<and>
         pauseTimeRef (startPlayback startFrom fadeIn now s) = max startFrom (start lp) \<and>
         startTimeRef (startPlayback startFrom fadeIn now s) = now"
  using assms startPlayback_started [OF assms(1-4), of startFrom fadeIn now]
  by (simp add: nth_append)

theorem loop_start_offset_and_duration_witness:
  "audioContextRef loopSession = Some 0 \<and> contexts loopSession ! 0 \<noteq> Closed \<and>
   isLoopingRef loopSession \<and> loopPointsRef loopSession = Some \<lparr>start = 2, end' = 5\<rparr> \<and>
   sources (startPlayback 0 False 7 loopSession) ! 1 =
     \<lparr>srcOffset = 2, srcDuration = Some 3, srcStopped = False\<rparr> \<and>
   sources (startPlayback 4 False 7 loopSession) ! 1 =
     \<lparr>srcOffset = 4, srcDuration = Some 1, srcStopped = False\<rparr>"
proof -
  have rdy: "audioContextRef loopSession = Some 0"
    "audioBufferRef loopSession = Some \<lparr>bufferDuration = 10\<rparr>"
    "gainNodeRef loopSession = Some 0" "contexts loopSession ! 0 \<noteq> Closed"
    "isLoopingRef loopSession" "loopPointsRef loopSession = Some \<lparr>start = 2, end' = 5\<rparr>"
    by (simp_all add: loopSession_value)
  have len: "length (sources loopSession) = 1" by (simp add: loopSession_value)
  from loop_start_offset_and_duration [OF rdy, of 0 False 7]
    loop_start_offset_and_duration [OF rdy, of 4 False 7] rdy len
  show ?thesis by simp
qed



lemma isPlaying_None_id:
  "playingRecordingId s = None \<Longrightarrow> \<not> isPlaying recId checkLoop s"
  by (simp add: isPlaying_def split: option.splits)

subsection \<open>Toggle-stop\<close>

text \<open>
  C2, as the code has it. When the function was made by a render that saw \<open>recId\<close>
  playing with loop flag \<open>loop\<close>, \<open>playRecording recId blob loop points\<close> is a stop in
  every well-formed state: afterwards every source node is stopped, every audio context is
  closed, no tick is pending and nothing is playing (\<open>idle\<close>); the refs are cleared, no
  source node and no context has been created, the play history is unchanged, and
  \<open>isPlaying recId\<close> is false. For a state \<open>s\<close> in which \<open>recId\<close> plays with flag \<open>loop\<close>
  this is the function \<open>playRecording (render s)\<close>, the one callers get once the provider
  has rendered the session.
\<close>

theorem toggle_stop:
  assumes "wellFormed s" "seenPlayingRecordingId r = Some recId" "seenIsLooping r = loop"
  shows "fst (playRecording r recId audioBlob loop loopPoints env s) = Fulfilled \<and>
         idle (snd (playRecording r recId audioBlob loop loopPoints env s)) \<and>
         sourceNodeRef (snd (playRecording r recId audioBlob loop loopPoints env s)) = None \<and>
         audioContextRef (snd (playRecording r recId audioBlob loop loopPoints env s)) = None \<and>
         audioBufferRef (snd (playRecording r recId audioBlob loop loopPoints env s)) = None \<and>
         gainNodeRef (snd (playRecording r recId audioBlob loop loopPoints env s)) = None \<and>
         length (sources (snd (playRecording r recId audioBlob loop loopPoints env s))) =
           length (sources s) \<and>
         length (contexts (snd (playRecording r recId audioBlob loop loopPoints env s))) =
           length (contexts s) \<and>
         playHistory (snd (playRecording r recId audioBlob loop loopPoints env s)) = playHistory s \<and>
         \<not> isPlaying recId None (snd (playRecording r recId audioBlob loop loopPoints env s)) \<and>
         \<not> isPlaying recId (Some loop) (snd (playRecording r recId audioBlob loop loopPoints env s))"
proof -
  let ?s' = "snd (playRecording r recId audioBlob loop loopPoints env s)"
  note td = teardown_released [OF assms(1)]
  have eq: "?s' = (closeContext (stopPlayback s))
              \<lparr>audioContextRef := None, audioBufferRef := None, gainNodeRef := None,
               playingRecordingId := None, isLooping := False, currentTime := 0,
               duration := 0, isLoopingRef := False\<rparr>"
    by (simp add: playRecording_toggle [OF assms(2,3)])
  have "idle ?s'"
    using td unfolding eq by (simp add: idle_def allSourcesStopped_def allContextsClosed_def)
  moreover have "playingRecordingId ?s' = None" unfolding eq by simp
  ultimately show ?thesis
    unfolding eq by (simp add: playRecording_fulfils isPlaying_def)
qed

text \<open>The normal-mode session, stopped through the function of the render that saw it.\<close>

theorem toggle_stop_witness:
  "wellFormed normalSession \<and>
   seenPlayingRecordingId (render normalSession) = Some ''A'' \<and>
   seenIsLooping (render normalSession) = False \<and>
   idle (snd (playRecording (render normalSession) ''A'' (Decodable \<lparr>bufferDuration = 10\<rparr>)
               False None
               \<lparr>contextTime = 0, dateNow = 2000, createdSuspended = False\<rparr> normalSession)) \<and>
   \<not> isPlaying ''A'' None
       (snd (playRecording (render normalSession) ''A'' (Decodable \<lparr>bufferDuration = 10\<rparr>)
               False None
               \<lparr>contextTime = 0, dateNow = 2000, createdSuspended = False\<rparr> normalSession))"
proof -
  have a: "seenPlayingRecordingId (render normalSession) = Some ''A''"
    "seenIsLooping (render normalSession) = False"
    by (simp_all add: render_def normalSession_value)
  from toggle_stop [OF normalSession_wellFormed a] a normalSession_wellFormed
  show ?thesis by blast
qed

text \<open>
  C2 as the claim states it fails. \<open>normalSession\<close> is the state after
  \<^verbatim>\<open>play(A, blob, false, null)\<close> called in the initial state through the function of
  the first render. In it a session is active for \<open>A\<close> with loop flag false. Calling the
  same function again (the one a caller holds who calls twice in a row; the provider has
  not rendered in between, or the caller kept the function) is not a stop: the test reads
  \<^verbatim>\<open>playingRecordingId = null\<close>, the session is torn down and a new one is started.
  Afterwards \<open>A\<close> is playing, a new audio context is open, a new source node runs and a
  tick is pending.
\<close>

theorem toggle_counterexample:
  "playingRecordingId normalSession = Some ''A'' \<and> isLooping normalSession = False \<and>
   normalSession =
     snd (playRecording (render initial) ''A'' (Decodable \<lparr>bufferDuration = 10\<rparr>) False None
            \<lparr>contextTime = 0, dateNow = 1000, createdSuspended = False\<rparr> initial) \<and>
   isPlaying ''A'' None
     (snd (playRecording (render initial) ''A'' (Decodable \<lparr>bufferDuration = 10\<rparr>) False None
            \<lparr>contextTime = 0, dateNow = 2000, createdSuspended = False\<rparr> normalSession)) \<and>
   \<not> idle
     (snd (playRecording (render initial) ''A'' (Decodable \<lparr>bufferDuration = 10\<rparr>) False None
            \<lparr>contextTime = 0, dateNow = 2000, createdSuspended = False\<rparr> normalSession)) \<and>
   contexts
     (snd (playRecording (render initial) ''A'' (Decodable \<lparr>bufferDuration = 10\<rparr>) False None
            \<lparr>contextTime = 0, dateNow = 2000, createdSuspended = False\<rparr> normalSession))
     = [Closed, Running] \<and>
   audioContextRef
     (snd (playRecording (render initial) ''A'' (Decodable \<lparr>bufferDuration = 10\<rparr>) False None
            \<lparr>contextTime = 0, dateNow = 2000, createdSuspended = False\<rparr> normalSession))
     = Some 1 \<and>
   sources
     (snd (playRecording (render initial) ''A'' (Decodable \<lparr>bufferDuration = 10\<rparr>) False None
            \<lparr>contextTime = 0, dateNow = 2000, createdSuspended = False\<rparr> normalSession))
     = [\<lparr>srcOffset = 0, srcDuration = None, srcStopped = True\<rparr>,
        \<lparr>srcOffset = 0, srcDuration = None, srcStopped = False\<rparr>] \<and>
   pendingFrames
     (snd (playRecording (render initial) ''A'' (Decodable \<lparr>bufferDuration = 10\<rparr>) False None
            \<lparr>contextTime = 0, dateNow = 2000, createdSuspended = False\<rparr> normalSession))
     = {2}"
proof -
  have v: "snd (playRecording (render initial) ''A'' (Decodable \<lparr>bufferDuration = 10\<rparr>) False
             None \<lparr>contextTime = 0, dateNow = 2000, createdSuspended = False\<rparr> normalSession) =
    \<lparr>playingRecordingId = Some ''A'', isLooping = False, currentTime = 0, duration = 10,
      playHistory = [\<lparr>recordingId = ''A'', timestamp = 2000\<rparr>], audioContextRef = Some 1,
      audioBufferRef = Some \<lparr>bufferDuration = 10\<rparr>, sourceNodeRef = Some 1,
      gainNodeRef = Some 1, crossfadeGainNodeRef = Some 1, startTimeRef = 0, pauseTimeRef = 0,
      animationFrameRef = 2, loopPointsRef = None, isLoopingRef = False,
      crossfadeScheduledRef = False, nextSourceRef = None, contexts = [Closed, Running],
      sources = [\<lparr>srcOffset = 0, srcDuration = None, srcStopped = True\<rparr>,
                 \<lparr>srcOffset = 0, srcDuration = None, srcStopped = False\<rparr>],
      pendingFrames = {2}, frameCounter = 2, consoleErrors = []\<rparr>"
    by (simp add: normalSession_value playRecording_def render_def initial_def closeContext_def
        stopPlayback_def stopSource_def cancelAnimationFrame_def Let_def startPlayback_def
        scheduleTick_def requestAnimationFrame_def addToHistory_def)
  have a: "playingRecordingId normalSession = Some ''A''" "isLooping normalSession = False"
    by (simp_all add: normalSession_value)
  have d: "normalSession =
     snd (playRecording (render initial) ''A'' (Decodable \<lparr>bufferDuration = 10\<rparr>) False None
            \<lparr>contextTime = 0, dateNow = 1000, createdSuspended = False\<rparr> initial)"
    by (simp only: normalSession_def)
  have r: "isPlaying ''A'' None
     (snd (playRecording (render initial) ''A'' (Decodable \<lparr>bufferDuration = 10\<rparr>) False None
            \<lparr>contextTime = 0, dateNow = 2000, createdSuspended = False\<rparr> normalSession))"
    "\<not> idle
     (snd (playRecording (render initial) ''A'' (Decodable \<lparr>bufferDuration = 10\<rparr>) False None
            \<lparr>contextTime = 0, dateNow = 2000, createdSuspended = False\<rparr> normalSession))"
    "contexts
     (snd (playRecording (render initial) ''A'' (Decodable \<lparr>bufferDuration = 10\<rparr>) False None
            \<lparr>contextTime = 0, dateNow = 2000, createdSuspended = False\<rparr> normalSession))
     = [Closed, Running]"
    "audioContextRef
     (snd (playRecording (render initial) ''A'' (Decodable \<lparr>bufferDuration = 10\<rparr>) False None
            \<lparr>contextTime = 0, dateNow = 2000, createdSuspended = False\<rparr> normalSession))
     = Some 1"
    "sources
     (snd (playRecording (render initial) ''A'' (Decodable \<lparr>bufferDuration = 10\<rparr>) False None
            \<lparr>contextTime = 0, dateNow = 2000, createdSuspended = False\<rparr> normalSession))
     = [\<lparr>srcOffset = 0, srcDuration = None, srcStopped = True\<rparr>,
        \<lparr>srcOffset = 0, srcDuration = None, srcStopped = False\<rparr>]"
    "pendingFrames
     (snd (playRecording (render initial) ''A'' (Decodable \<lparr>bufferDuration = 10\<rparr>) False None
            \<lparr>contextTime = 0, dateNow = 2000, createdSuspended = False\<rparr> normalSession))
     = {2}"
    unfolding v by (simp_all add: isPlaying_def idle_def allContextsClosed_def)
  from a d r show ?thesis by blast
qed

subsection \<open>Stop\<close>

text \<open>
  C3, as the code has it. In every well-formed state \<open>stopPlayback\<close> stops every source
  node and withdraws the pending tick. It leaves the playing id, the loop flag, the audio
  context and the decoded buffer as they are, so \<open>isPlaying\<close> answers as before. Called
  again, or when nothing runs, it changes nothing.
\<close>

theorem stop_stops_output_only:
  assumes "wellFormed s"
  shows "allSourcesStopped (stopPlayback s) \<and>
         pendingFrames (stopPlayback s) = {} \<and>
         sourceNodeRef (stopPlayback s) = None \<and>
         nextSourceRef (stopPlayback s) = None \<and>
         playingRecordingId (stopPlayback s) = playingRecordingId s \<and>
         isLooping (stopPlayback s) = isLooping s \<and>
         isPlaying recId checkLoop (stopPlayback s) = isPlaying recId checkLoop s \<and>
         audioContextRef (stopPlayback s) = audioContextRef s \<and>
         contexts (stopPlayback s) = contexts s \<and>
         audioBufferRef (stopPlayback s) = audioBufferRef s \<and>
         stopPlayback (stopPlayback s) = stopPlayback s \<and>
         (sourceNodeRef s = None \<and> nextSourceRef s = None \<and> animationFrameRef s = 0 \<and>
          \<not> crossfadeScheduledRef s \<longrightarrow> stopPlayback s = s)"
proof -
  from assms have o: "ownsLive s" by (simp add: wellFormed_def)
  show ?thesis
    using stopPlayback_srcStopped [OF o] stopPlayback_noPending [OF o]
    by (simp add: stopPlayback_idem stopPlayback_noop isPlaying_def split: option.splits)
qed

theorem stop_stops_output_only_witness:
  "wellFormed loopSession \<and>
   allSourcesStopped (stopPlayback loopSession) \<and>
   pendingFrames (stopPlayback loopSession) = {} \<and>
   stopPlayback (stopPlayback loopSession) = stopPlayback loopSession \<and>
   stopPlayback initial = initial"
proof -
  have i: "sourceNodeRef initial = None \<and> nextSourceRef initial = None \<and>
           animationFrameRef initial = 0 \<and> \<not> crossfadeScheduledRef initial"
    by (simp add: initial_def)
  from stop_stops_output_only [OF loopSession_wellFormed]
    stop_stops_output_only [OF initial_wellFormed] i loopSession_wellFormed
  show ?thesis by blast
qed

text \<open>
  C3 as the claim states it fails: after \<open>stopPlayback\<close> on a playing session,
  \<open>isPlaying\<close> is still true for its id and its audio context is still open.
\<close>

theorem stop_counterexample:
  "isPlaying ''A'' None (stopPlayback loopSession) \<and>
   audioContextRef (stopPlayback loopSession) = Some 0 \<and>
   contexts (stopPlayback loopSession) = [Running] \<and>
   audioBufferRef (stopPlayback loopSession) = Some \<lparr>bufferDuration = 10\<rparr>"
  by (simp add: isPlaying_def loopSession_value)

subsection \<open>Decode failure\<close>

text \<open>
  C4, as the code has it. When a call of \<open>playRecording\<close> that is not a toggle-stop
  (the render that made the function did not see \<open>recId\<close> playing with the flag \<open>loop\<close>)
  fails to decode its bytes, the failure is caught and written to the console and the
  returned promise is fulfilled. No session exists afterwards: nothing is playing, \<open>isPlaying\<close>
  is false for every id, every source node is stopped and none was created, no tick is
  pending, the play history is unchanged, and every context that existed before the call
  is closed.
\<close>

theorem decode_failure_contained:
  assumes "wellFormed s"
    and "\<not> (seenPlayingRecordingId r = Some recId \<and> seenIsLooping r = loop)"
    and "decodeAudioData audioBlob = Inl err"
  shows "fst (playRecording r recId audioBlob loop loopPoints env s) = Fulfilled \<and>
         consoleErrors (snd (playRecording r recId audioBlob loop loopPoints env s)) =
           consoleErrors s @ [''Error playing audio:''] \<and>
         playingRecordingId (snd (playRecording r recId audioBlob loop loopPoints env s)) = None \<and>
         \<not> isPlaying anyId checkLoop (snd (playRecording r recId audioBlob loop loopPoints env s)) \<and>
         allSourcesStopped (snd (playRecording r recId audioBlob loop loopPoints env s)) \<and>
         sources (snd (playRecording r recId audioBlob loop loopPoints env s)) =
           sources (stopPlayback s) \<and>
         sourceNodeRef (snd (playRecording r recId audioBlob loop loopPoints env s)) = None \<and>
         pendingFrames (snd (playRecording r recId audioBlob loop loopPoints env s)) = {} \<and>
         playHistory (snd (playRecording r recId audioBlob loop loopPoints env s)) = playHistory s \<and>
         list_all (\<lambda>st. st = Closed)
           (take (length (contexts s))
              (contexts (snd (playRecording r recId audioBlob loop loopPoints env s))))"
proof -
  let ?s' = "snd (playRecording r recId audioBlob loop loopPoints env s)"
  note td = teardown_released [OF assms(1)]
  have eq: "?s' = (closeContext (stopPlayback s))
              \<lparr>contexts := contexts (closeContext (stopPlayback s)) @
                   [if createdSuspended env then Suspended else Running],
               audioContextRef := Some (length (contexts s)),
               consoleErrors := consoleErrors s @ [''Error playing audio:''],
               isLoopingRef := False, playingRecordingId := None, isLooping := False\<rparr>"
    by (simp add: playRecording_failure [OF assms(2,3)])
  have p: "playingRecordingId ?s' = None" unfolding eq by simp
  show ?thesis
    using td isPlaying_None_id [OF p] unfolding eq
    by (simp add: playRecording_fulfils allSourcesStopped_def allContextsClosed_def)
qed

theorem decode_failure_contained_witness:
  "wellFormed loopSession \<and>
   \<not> (seenPlayingRecordingId (render loopSession) = Some ''B'' \<and>
      seenIsLooping (render loopSession) = False) \<and>
   decodeAudioData Malformed = Inl DecodeError \<and>
   playingRecordingId (snd (playRecording (render loopSession) ''B'' Malformed False None
      \<lparr>contextTime = 0, dateNow = 2000, createdSuspended = False\<rparr> loopSession)) = None \<and>
   allSourcesStopped (snd (playRecording (render loopSession) ''B'' Malformed False None
      \<lparr>contextTime = 0, dateNow = 2000, createdSuspended = False\<rparr> loopSession)) \<and>
   pendingFrames (snd (playRecording (render loopSession) ''B'' Malformed False None
      \<lparr>contextTime = 0, dateNow = 2000, createdSuspended = False\<rparr> loopSession)) = {}"
proof -
  have a: "\<not> (seenPlayingRecordingId (render loopSession) = Some ''B'' \<and>
                seenIsLooping (render loopSession) = False)"
    by (simp add: render_def loopSession_value)
  have d: "decodeAudioData Malformed = Inl DecodeError" by simp
  from decode_failure_contained [OF loopSession_wellFormed a d] a d loopSession_wellFormed
  show ?thesis by blast
qed

text \<open>
  C4 as the claim states it fails: after a failed decode in the initial state the promise
  is fulfilled, so the caller is not told, and the audio context created for the attempt
  is still referenced and open.
\<close>

theorem decode_failure_counterexample:
  "fst (playRecording (render initial) ''A'' Malformed False None
          \<lparr>contextTime = 0, dateNow = 1000, createdSuspended = False\<rparr> initial) = Fulfilled \<and>
   audioContextRef (snd (playRecording (render initial) ''A'' Malformed False None
          \<lparr>contextTime = 0, dateNow = 1000, createdSuspended = False\<rparr> initial)) = Some 0 \<and>
   contexts (snd (playRecording (render initial) ''A'' Malformed False None
          \<lparr>contextTime = 0, dateNow = 1000, createdSuspended = False\<rparr> initial)) = [Running]"
  by (simp add: playRecording_def render_def initial_def closeContext_def stopPlayback_def Let_def)



lemma insertion_fold_set:
  "set (foldl (\<lambda>acc x. if x \<in> set acc then acc else acc @ [x]) ys xs) = set ys \<union> set xs"
  by (induction xs arbitrary: ys) auto

lemma insertion_fold_distinct:
  "distinct ys \<Longrightarrow> distinct (foldl (\<lambda>acc x. if x \<in> set acc then acc else acc @ [x]) ys xs)"
  by (induction xs arbitrary: ys) auto

lemma set_Array_from_Set [simp]: "set (Array_from_Set xs) = set xs"
  by (simp add: Array_from_Set_def insertion_fold_set)

lemma distinct_Array_from_Set [simp]: "distinct (Array_from_Set xs)"
  by (simp add: Array_from_Set_def insertion_fold_distinct)

subsection \<open>Play history\<close>

text \<open>
  C9. Every call of \<open>playRecording\<close> that is not a toggle-stop (the render that made the
  function did not see \<open>recId\<close> playing with the flag \<open>loop\<close>) and decodes its bytes puts
  the entry (recording id, \<^verbatim>\<open>Date.now()\<close>) at the head of the play history (after
  removing older entries of that id, and keeping 1000 entries). The recently played ids
  are exactly the ids of the history entries whose timestamp is greater than
  \<open>now - 7 days\<close>, each id once.
\<close>

theorem play_history_and_recently_played:
  "(\<not> (seenPlayingRecordingId r = Some recId \<and> seenIsLooping r = loop) \<and>
    decodeAudioData audioBlob = Inr audioBuffer \<longrightarrow>
      playHistory (snd (playRecording r recId audioBlob loop loopPoints env s)) =
        take 1000 (\<lparr>recordingId = recId, timestamp = dateNow env\<rparr> #
                   filter (\<lambda>e. recordingId e \<noteq> recId) (playHistory s)) \<and>
      \<lparr>recordingId = recId, timestamp = dateNow env\<rparr> \<in>
        set (playHistory (snd (playRecording r recId audioBlob loop loopPoints env s)))) \<and>
   set (recentlyPlayedRecordings now history) =
     recordingId ` {e \<in> set history. now - 604800000 < timestamp e} \<and>
   distinct (recentlyPlayedRecordings now history)"
proof (intro conjI impI)
  assume a: "\<not> (seenPlayingRecordingId r = Some recId \<and> seenIsLooping r = loop) \<and>
    decodeAudioData audioBlob = Inr audioBuffer"
  then have eq: "playRecording r recId audioBlob loop loopPoints env s =
           (Fulfilled,
            scheduleTick
              (startPlayback
                 (if loop then (case loopPoints of None \<Rightarrow> 0 | Some lp \<Rightarrow> start lp) else 0)
                 False (contextTime env)
                 ((closeContext (stopPlayback s))
                    \<lparr>contexts := contexts (closeContext (stopPlayback s)) @
                         [if createdSuspended env then Suspended else Running],
                     audioContextRef := Some (length (contexts s)),
                     audioBufferRef := Some audioBuffer,
                     gainNodeRef := Some (length (contexts s)),
                     loopPointsRef := loopPoints,
                     isLoopingRef := loop,
                     playingRecordingId := Some recId,
                     isLooping := loop,
                     duration := bufferDuration audioBuffer,
                     currentTime := 0,
                     playHistory := addToHistory recId (dateNow env) (playHistory s)\<rparr>)))"
    by (intro playRecording_success) simp_all
  show h: "playHistory (snd (playRecording r recId audioBlob loop loopPoints env s)) =
        take 1000 (\<lparr>recordingId = recId, timestamp = dateNow env\<rparr> #
                   filter (\<lambda>e. recordingId e \<noteq> recId) (playHistory s))"
    unfolding eq by (simp add: addToHistory_def)
  show "\<lparr>recordingId = recId, timestamp = dateNow env\<rparr> \<in>
        set (playHistory (snd (playRecording r recId audioBlob loop loopPoints env s)))"
    unfolding h by simp
next
  show "set (recentlyPlayedRecordings now history) =
     recordingId ` {e \<in> set history. now - 604800000 < timestamp e}"
    by (simp add: recentlyPlayedRecordings_def Let_def)
  show "distinct (recentlyPlayedRecordings now history)"
    by (simp add: recentlyPlayedRecordings_def Let_def)
qed

theorem play_history_and_recently_played_witness:
  "\<not> (seenPlayingRecordingId (render initial) = Some ''A'' \<and>
      seenIsLooping (render initial) = True) \<and>
   decodeAudioData (Decodable \<lparr>bufferDuration = 10\<rparr>) = Inr \<lparr>bufferDuration = 10\<rparr> \<and>
   playHistory loopSession = [\<lparr>recordingId = ''A'', timestamp = 1000\<rparr>] \<and>
   set (recentlyPlayedRecordings 2000 (playHistory loopSession)) = {''A''} \<and>
   set (recentlyPlayedRecordings 700000000 (playHistory loopSession)) = {}"
proof -
  have a: "\<not> (seenPlayingRecordingId (render initial) = Some ''A'' \<and>
                seenIsLooping (render initial) = True)"
    by (simp add: render_def initial_def)
  have d: "decodeAudioData (Decodable \<lparr>bufferDuration = 10\<rparr>) = Inr \<lparr>bufferDuration = 10\<rparr>"
    by simp
  have i: "playHistory initial = []" by (simp add: initial_def)
  note inst = play_history_and_recently_played [of "render initial" "''A''" True
      "Decodable \<lparr>bufferDuration = 10\<rparr>" "\<lparr>bufferDuration = 10\<rparr>"
      "Some \<lparr>start = 2, end' = 5\<rparr>"
      "\<lparr>contextTime = 0, dateNow = 1000, createdSuspended = False\<rparr>" initial]
  from inst [of 0 "[]"] a d
  have h: "playHistory loopSession = [\<lparr>recordingId = ''A'', timestamp = 1000\<rparr>]"
    by (simp add: loopSession_def i)
  note recent = inst [THEN conjunct2, THEN conjunct1]
  have r1: "set (recentlyPlayedRecordings 2000 (playHistory loopSession)) = {''A''}"
    unfolding h recent by auto
  have r2: "set (recentlyPlayedRecordings 700000000 (playHistory loopSession)) = {}"
    unfolding h recent by auto
  from a d h r1 r2 show ?thesis by blast
qed

subsection \<open>Ticks\<close>

lemma fireFrame_pending:
  assumes "wellFormed s" "fid \<in> pendingFrames s"
  shows "fireFrame fid now s = updatePlayback now (s\<lparr>pendingFrames := {}\<rparr>)"
proof -
  have "pendingFrames s - {fid} = {}" by (rule only_pending_frame(1) [OF assms])
  with assms(2) show ?thesis by (simp only: fireFrame_def if_True)
qed

lemma wellFormed_no_pending:
  assumes "wellFormed s"
  shows "wellFormed (s\<lparr>pendingFrames := {}\<rparr>)"
  using assms by (simp add: wellFormed_def refsInStore_iff ownsLive_def)

lemma awaitsResume_Running:
  assumes "audioContextRef s = Some c" "contexts s ! c = Running"
  shows "\<not> awaitsResume s"
  using assms by (simp add: awaitsResume_def split: option.splits)

text \<open>A tick at the loop end.\<close>

lemma tick_restart:
  assumes wf: "wellFormed s" and fid: "fid \<in> pendingFrames s"
    and rdy: "audioContextRef s = Some c" "audioBufferRef s = Some b" "gainNodeRef s = Some g"
      "contexts s ! c = Running"
    and lp: "isLoopingRef s" "loopPointsRef s = Some lp"
    and pos: "end' lp \<le> trackedPosition now s"
  shows "currentTime (fireFrame fid now s) = trackedPosition now s"
    and "list_all srcStopped (take (length (sources s)) (sources (fireFrame fid now s)))"
    and "sourceNodeRef (fireFrame fid now s) = Some (length (sources s))"
    and "sources (fireFrame fid now s) ! length (sources s) =
           \<lparr>srcOffset = start lp, srcDuration = Some (end' lp - start lp), srcStopped = False\<rparr>"
    and "startTimeRef (fireFrame fid now s) = now"
    and "pauseTimeRef (fireFrame fid now s) = start lp"
    and "pendingFrames (fireFrame fid now s) = {animationFrameRef (fireFrame fid now s)}"
    and "playingRecordingId (fireFrame fid now s) = playingRecordingId s"
    and "isLooping (fireFrame fid now s) = isLooping s"
    and "audioContextRef (fireFrame fid now s) = Some c"
    and "audioBufferRef (fireFrame fid now s) = Some b"
    and "isLoopingRef (fireFrame fid now s)"
    and "loopPointsRef (fireFrame fid now s) = Some lp"
    and "gainNodeRef (fireFrame fid now s) = Some g"
    and "contexts (fireFrame fid now s) = contexts s"
proof -
  let ?s0 = "s\<lparr>pendingFrames := {}\<rparr>"
  let ?s1 = "?s0\<lparr>currentTime := trackedPosition now s\<rparr>"
  let ?s2 = "stopPlayback ?s1"
  have w1: "wellFormed ?s1" using wellFormed_no_pending [OF wf] by simp
  then have o1: "ownsLive ?s1" by (simp add: wellFormed_def)
  have nr: "\<not> awaitsResume ?s0" by (rule awaitsResume_Running [of _ c]) (simp_all add: rdy)
  have eq: "fireFrame fid now s = scheduleTick (startPlayback (start lp) False now ?s2)"
    using updatePlayback_restart [of ?s0 c b lp now] rdy lp pos nr
    by (simp add: fireFrame_pending [OF wf fid] trackedPosition_def)
  have rdy2: "audioContextRef ?s2 = Some c" "audioBufferRef ?s2 = Some b"
    "gainNodeRef ?s2 = Some g" "contexts ?s2 ! c \<noteq> Closed"
    by (simp_all add: rdy)
  note st = startPlayback_started [OF rdy2, of "start lp" False now]
  have stopped: "allSourcesStopped ?s2" by (rule stopPlayback_srcStopped [OF o1])
  have p2: "pendingFrames ?s2 = {}" by (rule stopPlayback_noPending [OF o1])
  show "currentTime (fireFrame fid now s) = trackedPosition now s" by (simp add: eq)
  show "list_all srcStopped (take (length (sources s)) (sources (fireFrame fid now s)))"
    using stopped by (simp add: eq st stopPlayback_idem allSourcesStopped_def)
  show "sourceNodeRef (fireFrame fid now s) = Some (length (sources s))"
    by (simp add: eq st)
  show "sources (fireFrame fid now s) ! length (sources s) =
           \<lparr>srcOffset = start lp, srcDuration = Some (end' lp - start lp), srcStopped = False\<rparr>"
    by (simp add: eq st stopPlayback_idem lp nth_append)
  show "startTimeRef (fireFrame fid now s) = now" by (simp add: eq st)
  show "pauseTimeRef (fireFrame fid now s) = start lp" by (simp add: eq st lp)
  show "pendingFrames (fireFrame fid now s) = {animationFrameRef (fireFrame fid now s)}"
    using p2 by (simp add: eq st stopPlayback_idem)
  show "playingRecordingId (fireFrame fid now s) = playingRecordingId s" by (simp add: eq)
  show "isLooping (fireFrame fid now s) = isLooping s" by (simp add: eq)
  show "audioContextRef (fireFrame fid now s) = Some c" by (simp add: eq rdy)
  show "audioBufferRef (fireFrame fid now s) = Some b" by (simp add: eq rdy)
  show "isLoopingRef (fireFrame fid now s)" by (simp add: eq lp)
  show "loopPointsRef (fireFrame fid now s) = Some lp" by (simp add: eq lp)
  show "gainNodeRef (fireFrame fid now s) = Some g" by (simp add: eq rdy)
  show "contexts (fireFrame fid now s) = contexts s" by (simp add: eq st rdy)
qed

text \<open>A tick inside the loop or before the end of the buffer.\<close>

lemma tick_continue:
  assumes wf: "wellFormed s" and fid: "fid \<in> pendingFrames s"
    and rdy: "audioContextRef s = Some c" "audioBufferRef s = Some b"
    and pos: "\<And>lp. isLoopingRef s \<Longrightarrow> loopPointsRef s = Some lp \<Longrightarrow>
                    trackedPosition now s < end' lp"
      "\<not> isLoopingRef s \<Longrightarrow> trackedPosition now s < bufferDuration b"
  shows "fireFrame fid now s =
           scheduleTick (s\<lparr>pendingFrames := {}, currentTime := trackedPosition now s\<rparr>)"
proof -
  have "updatePlayback now (s\<lparr>pendingFrames := {}\<rparr>) =
          scheduleTick (s\<lparr>pendingFrames := {},
            currentTime := pauseTimeRef (s\<lparr>pendingFrames := {}\<rparr>) +
               (now - startTimeRef (s\<lparr>pendingFrames := {}\<rparr>))\<rparr>)"
    using rdy pos by (intro updatePlayback_continue) (simp_all add: trackedPosition_def)
  then show ?thesis
    by (simp add: fireFrame_pending [OF wf fid] trackedPosition_def)
qed

text \<open>A tick at the end of the buffer in normal mode.\<close>

lemma tick_end:
  assumes wf: "wellFormed s" and fid: "fid \<in> pendingFrames s"
    and rdy: "audioContextRef s = Some c" "audioBufferRef s = Some b"
    and nl: "\<not> isLoopingRef s"
    and pos: "bufferDuration b \<le> trackedPosition now s"
  shows "playingRecordingId (fireFrame fid now s) = None"
    and "allSourcesStopped (fireFrame fid now s)"
    and "pendingFrames (fireFrame fid now s) = {}"
    and "sourceNodeRef (fireFrame fid now s) = None"
    and "sources (fireFrame fid now s) =
           sources (stopPlayback s)"
    and "isLooping (fireFrame fid now s) = False"
    and "\<not> isLoopingRef (fireFrame fid now s)"
    and "currentTime (fireFrame fid now s) = 0"
    and "audioContextRef (fireFrame fid now s) = audioContextRef s"
    and "contexts (fireFrame fid now s) = contexts s"
proof -
  let ?s0 = "s\<lparr>pendingFrames := {}\<rparr>"
  let ?s1 = "?s0\<lparr>currentTime := trackedPosition now s\<rparr>"
  have w1: "wellFormed ?s1" using wellFormed_no_pending [OF wf] by simp
  then have o1: "ownsLive ?s1" by (simp add: wellFormed_def)
  have eq: "fireFrame fid now s =
      (stopPlayback ?s1)\<lparr>playingRecordingId := None, isLooping := False, currentTime := 0,
              isLoopingRef := False\<rparr>"
    using updatePlayback_end [of ?s0 c b now] rdy nl pos
    by (simp add: fireFrame_pending [OF wf fid] trackedPosition_def)
  show "playingRecordingId (fireFrame fid now s) = None" by (simp add: eq)
  show "allSourcesStopped (fireFrame fid now s)"
    using stopPlayback_srcStopped [OF o1] by (simp add: eq allSourcesStopped_def)
  show "pendingFrames (fireFrame fid now s) = {}"
    using stopPlayback_noPending [OF o1] by (simp add: eq)
  show "sourceNodeRef (fireFrame fid now s) = None" by (simp add: eq)
  show "sources (fireFrame fid now s) = sources (stopPlayback s)"
    by (simp add: eq stopPlayback_def stopSource_def cancelAnimationFrame_def Let_def
        split: option.splits)
  show "isLooping (fireFrame fid now s) = False" by (simp add: eq)
  show "\<not> isLoopingRef (fireFrame fid now s)" by (simp add: eq)
  show "currentTime (fireFrame fid now s) = 0" by (simp add: eq)
  show "audioContextRef (fireFrame fid now s) = audioContextRef s" by (simp add: eq)
  show "contexts (fireFrame fid now s) = contexts s" by (simp add: eq)
qed

text \<open>What \<open>sessionActive\<close> gives.\<close>

lemma sessionActiveE:
  assumes "sessionActive s"
  obtains c b g where "audioContextRef s = Some c" "audioBufferRef s = Some b"
    "gainNodeRef s = Some g" "contexts s ! c = Running"
    "animationFrameRef s \<in> pendingFrames s"
  using assms by (auto simp: sessionActive_def split: option.splits)

lemma sessionActiveI:
  assumes "audioContextRef s = Some c" "audioBufferRef s = Some b"
    "gainNodeRef s = Some g" "contexts s ! c = Running"
    "animationFrameRef s \<in> pendingFrames s"
  shows "sessionActive s"
  using assms by (simp add: sessionActive_def)

text \<open>A fresh start establishes a session.\<close>

lemma play_establishes_session:
  assumes "\<not> (seenPlayingRecordingId r = Some recId \<and> seenIsLooping r = loop)"
    and "decodeAudioData audioBlob = Inr audioBuffer"
    and "\<And>lp. loop \<Longrightarrow> loopPoints = Some lp \<Longrightarrow> 0 \<le> start lp \<and> start lp \<le> end' lp"
  shows "sessionActive (snd (playRecording r recId audioBlob loop loopPoints env s))"
    and "audioBufferRef (snd (playRecording r recId audioBlob loop loopPoints env s)) = Some audioBuffer"
    and "isPlaying recId (Some loop) (snd (playRecording r recId audioBlob loop loopPoints env s))"
proof -
  let ?t = "closeContext (stopPlayback s)"
  let ?n = "length (contexts s)"
  let ?s3 = "?t\<lparr>contexts := contexts ?t @ [if createdSuspended env then Suspended else Running],
                     audioContextRef := Some ?n,
                     audioBufferRef := Some audioBuffer,
                     gainNodeRef := Some ?n,
                     loopPointsRef := loopPoints,
                     isLoopingRef := loop,
                     playingRecordingId := Some recId,
                     isLooping := loop,
                     duration := bufferDuration audioBuffer,
                     currentTime := 0,
                     playHistory := addToHistory recId (dateNow env) (playHistory s)\<rparr>"
  let ?from = "if loop then (case loopPoints of None \<Rightarrow> 0 | Some lp \<Rightarrow> start lp) else 0"
  let ?s4 = "startPlayback ?from False (contextTime env) ?s3"
  have eq: "snd (playRecording r recId audioBlob loop loopPoints env s) = scheduleTick ?s4"
    by (simp add: playRecording_success [OF assms(1,2)])
  have len: "length (contexts ?t) = ?n" by simp
  have fresh: "contexts ?s3 ! ?n = (if createdSuspended env then Suspended else Running)"
    by (simp add: nth_append)
  have rdy: "audioContextRef ?s3 = Some ?n" "audioBufferRef ?s3 = Some audioBuffer"
    "gainNodeRef ?s3 = Some ?n" "contexts ?s3 ! ?n \<noteq> Closed"
    using fresh by simp_all
  note st = startPlayback_started [OF rdy, of ?from False "contextTime env"]
  have run: "contexts ?s4 ! ?n = Running"
    unfolding st(8) using fresh by (simp add: nth_append)
  show "sessionActive (snd (playRecording r recId audioBlob loop loopPoints env s))"
    unfolding eq using run by (intro sessionActiveI [of _ ?n audioBuffer ?n]) simp_all
  show "audioBufferRef (snd (playRecording r recId audioBlob loop loopPoints env s)) = Some audioBuffer"
    unfolding eq by simp
  show "isPlaying recId (Some loop) (snd (playRecording r recId audioBlob loop loopPoints env s))"
    unfolding eq by (simp add: isPlaying_def)
qed

lemma tick_eq: "tick now s = fireFrame (animationFrameRef s) now s"
  by (simp add: tick_def)

text \<open>The frame a tick runs when the session is active.\<close>

lemma tick_restart_session:
  assumes wf: "wellFormed s" and act: "sessionActive s"
    and lp: "isLoopingRef s" "loopPointsRef s = Some lp"
    and pos: "end' lp \<le> trackedPosition now s"
  shows "sessionActive (tick now s)" and "wellFormed (tick now s)"
    and "audioBufferRef (tick now s) = audioBufferRef s"
proof -
  from act obtain c b g where rdy: "audioContextRef s = Some c" "audioBufferRef s = Some b"
    "gainNodeRef s = Some g" "contexts s ! c = Running"
    and fid: "animationFrameRef s \<in> pendingFrames s"
    by (rule sessionActiveE)
  note r = tick_restart [OF wf fid rdy lp pos, folded tick_eq]
  show "sessionActive (tick now s)"
    using r(7) by (intro sessionActiveI [of _ c b g]) (simp_all add: r rdy)
  show "wellFormed (tick now s)"
    unfolding tick_eq by (rule fireFrame_wellFormed [OF wf])
  show "audioBufferRef (tick now s) = audioBufferRef s" by (simp add: r rdy)
qed

text \<open>
  C1, as the code has it. Take a well-formed state with an active session (context
  running, buffer and gain node set, tick pending) and let a tick run at clock value
  \<open>now\<close>; the position it computes is \<open>pauseTimeRef + (now - startTimeRef)\<close>.

  \<^item> Looping with loop points \<open>0 \<le> start \<le> end\<close>, position at or after the loop end: the
    tick records that position, stops the sources that existed, starts a new source at
    the loop start with play duration \<open>end - start\<close>, sets \<open>startTimeRef\<close> to \<open>now\<close> and
    \<open>pauseTimeRef\<close> to the loop start, and requests the next frame; the session stays
    active. The position the next tick observes, at any clock value \<open>now'\<close>, is the loop
    start plus \<open>now' - now\<close>: it is at least the loop start when \<open>now \<le> now'\<close>, and it
    is less than the loop end when \<open>now' - now\<close> is less than the length of the loop.
  \<^item> Not looping, position at or after the end of the buffer: the tick stops every source,
    clears the playing id and the loop flag (state and ref) and sets the position to 0,
    so that \<open>isPlaying\<close> is false for every id, and no tick is pending; the audio context
    is left as it is.
  \<^item> Otherwise the tick records the position, leaves the source alone and requests the
    next frame.
\<close>

theorem tick_behaviour:
  assumes wf: "wellFormed s" and act: "sessionActive s" and buf: "audioBufferRef s = Some b"
  shows
   "(isLoopingRef s \<and> loopPointsRef s = Some lp \<and> 0 \<le> start lp \<and> start lp \<le> end' lp \<and>
     end' lp \<le> trackedPosition now s \<longrightarrow>
       currentTime (tick now s) = trackedPosition now s \<and>
       list_all srcStopped (take (length (sources s)) (sources (tick now s))) \<and>
       sourceNodeRef (tick now s) = Some (length (sources s)) \<and>
       sources (tick now s) ! length (sources s) =
         \<lparr>srcOffset = start lp, srcDuration = Some (end' lp - start lp), srcStopped = False\<rparr> \<and>
       startTimeRef (tick now s) = now \<and>
       pauseTimeRef (tick now s) = start lp \<and>
       pendingFrames (tick now s) = {animationFrameRef (tick now s)} \<and>
       sessionActive (tick now s) \<and>
       playingRecordingId (tick now s) = playingRecordingId s \<and>
       currentTime (tick now' (tick now s)) = start lp + (now' - now) \<and>
       (now \<le> now' \<longrightarrow> start lp \<le> currentTime (tick now' (tick now s))) \<and>
       (now' - now < end' lp - start lp \<longrightarrow> currentTime (tick now' (tick now s)) < end' lp)) \<and>
    (\<not> isLoopingRef s \<and> bufferDuration b \<le> trackedPosition now s \<longrightarrow>
       playingRecordingId (tick now s) = None \<and>
       isLooping (tick now s) = False \<and>
       \<not> isLoopingRef (tick now s) \<and>
       currentTime (tick now s) = 0 \<and>
       \<not> isPlaying recId checkLoop (tick now s) \<and>
       allSourcesStopped (tick now s) \<and>
       sourceNodeRef (tick now s) = None \<and>
       pendingFrames (tick now s) = {} \<and>
       audioContextRef (tick now s) = audioContextRef s \<and>
       contexts (tick now s) = contexts s) \<and>
    ((isLoopingRef s \<and> loopPointsRef s = Some lp \<and> trackedPosition now s < end' lp) \<or>
     (\<not> isLoopingRef s \<and> trackedPosition now s < bufferDuration b) \<longrightarrow>
       currentTime (tick now s) = trackedPosition now s \<and>
       sources (tick now s) = sources s \<and>
       sourceNodeRef (tick now s) = sourceNodeRef s \<and>
       playingRecordingId (tick now s) = playingRecordingId s \<and>
       pendingFrames (tick now s) = {animationFrameRef (tick now s)})"
proof -
  from act buf obtain c g where rdy: "audioContextRef s = Some c" "audioBufferRef s = Some b"
    "gainNodeRef s = Some g" "contexts s ! c = Running"
    and fid: "animationFrameRef s \<in> pendingFrames s"
    by (auto elim: sessionActiveE)
  have restart:
    "currentTime (tick now s) = trackedPosition now s \<and>
       list_all srcStopped (take (length (sources s)) (sources (tick now s))) \<and>
       sourceNodeRef (tick now s) = Some (length (sources s)) \<and>
       sources (tick now s) ! length (sources s) =
         \<lparr>srcOffset = start lp, srcDuration = Some (end' lp - start lp), srcStopped = False\<rparr> \<and>
       startTimeRef (tick now s) = now \<and>
       pauseTimeRef (tick now s) = start lp \<and>
       pendingFrames (tick now s) = {animationFrameRef (tick now s)} \<and>
       sessionActive (tick now s) \<and>
       playingRecordingId (tick now s) = playingRecordingId s \<and>
       currentTime (tick now' (tick now s)) = start lp + (now' - now) \<and>
       (now \<le> now' \<longrightarrow> start lp \<le> currentTime (tick now' (tick now s))) \<and>
       (now' - now < end' lp - start lp \<longrightarrow> currentTime (tick now' (tick now s)) < end' lp)"
    if lp: "isLoopingRef s" "loopPointsRef s = Some lp"
      and pos: "end' lp \<le> trackedPosition now s"
  proof -
    note r = tick_restart [OF wf fid rdy lp pos, folded tick_eq]
    note a = tick_restart_session [OF wf act lp pos]
    have f': "animationFrameRef (tick now s) \<in> pendingFrames (tick now s)"
      using r(7) by simp
    have tp: "trackedPosition now' (tick now s) = start lp + (now' - now)"
      by (simp add: trackedPosition_def r(5,6))
    have run: "contexts (tick now s) ! c = Running" by (simp add: r(15) rdy(4))
    have next_tick: "currentTime (tick now' (tick now s)) = start lp + (now' - now)"
    proof (cases "trackedPosition now' (tick now s) < end' lp")
      case True
      have "tick now' (tick now s) =
              scheduleTick ((tick now s)\<lparr>pendingFrames := {},
                 currentTime := trackedPosition now' (tick now s)\<rparr>)"
        unfolding tick_eq [of now' "tick now s"]
        using True r(12,13) by (intro tick_continue [OF a(2) f' r(10,11)]) simp_all
      then show ?thesis by (simp add: tp)
    next
      case False
      then have pos': "end' lp \<le> trackedPosition now' (tick now s)" by simp
      from tick_restart(1) [OF a(2) f' r(10,11,14) run r(12,13) pos', folded tick_eq] tp
      show ?thesis by simp
    qed
    from r(1-8) a(1) next_tick show ?thesis by auto
  qed
  have finish:
    "playingRecordingId (tick now s) = None \<and>
       isLooping (tick now s) = False \<and>
       \<not> isLoopingRef (tick now s) \<and>
       currentTime (tick now s) = 0 \<and>
       \<not> isPlaying recId checkLoop (tick now s) \<and>
       allSourcesStopped (tick now s) \<and>
       sourceNodeRef (tick now s) = None \<and>
       pendingFrames (tick now s) = {} \<and>
       audioContextRef (tick now s) = audioContextRef s \<and>
       contexts (tick now s) = contexts s"
    if nl: "\<not> isLoopingRef s" and pos: "bufferDuration b \<le> trackedPosition now s"
  proof -
    note e = tick_end [OF wf fid rdy(1,2) nl pos, folded tick_eq]
    from e(1-4) e(6-10) isPlaying_None_id [OF e(1)] show ?thesis by simp
  qed
  have continue:
    "currentTime (tick now s) = trackedPosition now s \<and>
       sources (tick now s) = sources s \<and>
       sourceNodeRef (tick now s) = sourceNodeRef s \<and>
       playingRecordingId (tick now s) = playingRecordingId s \<and>
       pendingFrames (tick now s) = {animationFrameRef (tick now s)}"
    if a: "(isLoopingRef s \<and> loopPointsRef s = Some lp \<and> trackedPosition now s < end' lp) \<or>
           (\<not> isLoopingRef s \<and> trackedPosition now s < bufferDuration b)"
  proof -
    have "tick now s =
            scheduleTick (s\<lparr>pendingFrames := {}, currentTime := trackedPosition now s\<rparr>)"
      unfolding tick_eq using a by (intro tick_continue [OF wf fid rdy(1,2)]) auto
    then show ?thesis by simp
  qed
  from restart finish continue show ?thesis by blast
qed

text \<open>The looping session: a tick at clock value 3 sees position 5, the loop end, and
  restarts at 2; the next tick, at 4, sees position 3. The normal session: a tick at 10
  sees the end of the buffer.\<close>

lemma loop_tick_at_3:
  "tick 3 loopSession =
     loopSession\<lparr>currentTime := 5, sourceNodeRef := Some 1, startTimeRef := 3,
        animationFrameRef := 2,
        sources := [\<lparr>srcOffset = 2, srcDuration = Some 3, srcStopped = True\<rparr>,
                    \<lparr>srcOffset = 2, srcDuration = Some 3, srcStopped = False\<rparr>],
        pendingFrames := {2}, frameCounter := 2\<rparr>"
  by (simp add: tick_def loopSession_value fireFrame_def updatePlayback_def awaitsResume_def
      stopPlayback_def stopSource_def cancelAnimationFrame_def startPlayback_def
      scheduleTick_def requestAnimationFrame_def Let_def)

theorem tick_behaviour_witness:
  "wellFormed loopSession \<and> sessionActive loopSession \<and>
   isLoopingRef loopSession \<and> end' \<lparr>start = 2 :: real, end' = 5\<rparr> \<le> trackedPosition 3 loopSession \<and>
   pauseTimeRef (tick 3 loopSession) = 2 \<and>
   currentTime (tick 4 (tick 3 loopSession)) = 3 \<and>
   wellFormed normalSession \<and> sessionActive normalSession \<and> \<not> isLoopingRef normalSession \<and>
   bufferDuration \<lparr>bufferDuration = 10\<rparr> \<le> trackedPosition 10 normalSession \<and>
   playingRecordingId (tick 10 normalSession) = None \<and>
   isLooping (tick 10 normalSession) = False \<and>
   pendingFrames (tick 10 normalSession) = {}"
proof -
  have l: "sessionActive loopSession"
    "audioBufferRef loopSession = Some \<lparr>bufferDuration = 10\<rparr>"
    by (simp_all add: loopSession_value sessionActive_def)
  have lc: "isLoopingRef loopSession" "loopPointsRef loopSession = Some \<lparr>start = 2, end' = 5\<rparr>"
    "end' \<lparr>start = 2 :: real, end' = 5\<rparr> \<le> trackedPosition 3 loopSession"
    by (simp_all add: loopSession_value trackedPosition_def)
  have n: "sessionActive normalSession"
    "audioBufferRef normalSession = Some \<lparr>bufferDuration = 10\<rparr>"
    by (simp_all add: normalSession_value sessionActive_def)
  have nc: "\<not> isLoopingRef normalSession"
    "bufferDuration \<lparr>bufferDuration = 10\<rparr> \<le> trackedPosition 10 normalSession"
    by (simp_all add: normalSession_value trackedPosition_def)
  from tick_behaviour [OF loopSession_wellFormed l, of "\<lparr>start = 2, end' = 5\<rparr>" 3 4] lc
  have a: "pauseTimeRef (tick 3 loopSession) = 2"
    "currentTime (tick 4 (tick 3 loopSession)) = 3"
    by simp_all
  from tick_behaviour [OF normalSession_wellFormed n, of "\<lparr>start = 2, end' = 5\<rparr>" 10] nc
  have b: "playingRecordingId (tick 10 normalSession) = None"
    "isLooping (tick 10 normalSession) = False"
    "pendingFrames (tick 10 normalSession) = {}"
    by simp_all
  from l lc n nc a b loopSession_wellFormed normalSession_wellFormed show ?thesis by blast
qed

text \<open>
  C1 as the claim states it fails three times.

  \<^item> The bound on the next position. In the looping session over \<open>[2, 5]\<close>, the tick at
    clock value 3 observes position 5 and restarts at 2 (\<open>startTimeRef = 3\<close>,
    \<open>pauseTimeRef = 2\<close>) and a tick is pending; when that next tick only runs at clock
    value 7 (animation frames are not delivered to a page in the background), the
    position it observes is 6, which is not below the loop end 5.
  \<^item> The session is not destroyed at the end of the buffer. In the normal-mode session
    the tick at clock value 10 clears the playing id, and the audio context is still
    referenced and running and the decoded buffer still held.
  \<^item> The tick loop does not continue for every active session. When the browser has
    suspended the audio context of the looping session, the tick at clock value 3
    restarts the source (after resuming the context) and \<open>A\<close> is still playing, and no
    tick is pending afterwards: the restart, which \<open>updatePlayback\<close> does not await, has
    withdrawn the frame that \<open>updatePlayback\<close> requested.
\<close>

theorem tick_counterexample:
  "sessionActive loopSession \<and>
   isLoopingRef loopSession \<and> loopPointsRef loopSession = Some \<lparr>start = 2, end' = 5\<rparr> \<and>
   currentTime (tick 3 loopSession) = 5 \<and>
   pauseTimeRef (tick 3 loopSession) = 2 \<and>
   startTimeRef (tick 3 loopSession) = 3 \<and>
   pendingFrames (tick 3 loopSession) = {2} \<and>
   currentTime (tick 7 (tick 3 loopSession)) = 6 \<and>
   playingRecordingId (tick 10 normalSession) = None \<and>
   audioContextRef (tick 10 normalSession) = Some 0 \<and>
   contexts (tick 10 normalSession) = [Running] \<and>
   audioBufferRef (tick 10 normalSession) = Some \<lparr>bufferDuration = 10\<rparr> \<and>
   wellFormed suspendedLoopSession \<and>
   isPlaying ''A'' (Some True) suspendedLoopSession \<and>
   animationFrameRef suspendedLoopSession \<in> pendingFrames suspendedLoopSession \<and>
   currentTime (tick 3 suspendedLoopSession) = 5 \<and>
   sourceNodeRef (tick 3 suspendedLoopSession) = Some 1 \<and>
   isPlaying ''A'' (Some True) (tick 3 suspendedLoopSession) \<and>
   pendingFrames (tick 3 suspendedLoopSession) = {}"
proof -
  have a: "sessionActive loopSession \<and>
   isLoopingRef loopSession \<and> loopPointsRef loopSession = Some \<lparr>start = 2, end' = 5\<rparr> \<and>
   currentTime (tick 3 loopSession) = 5 \<and>
   pauseTimeRef (tick 3 loopSession) = 2 \<and>
   startTimeRef (tick 3 loopSession) = 3 \<and>
   pendingFrames (tick 3 loopSession) = {2} \<and>
   currentTime (tick 7 (tick 3 loopSession)) = 6"
    by (simp add: loop_tick_at_3 sessionActive_def)
      (simp add: tick_def loopSession_value fireFrame_def
        updatePlayback_def awaitsResume_def
        stopPlayback_def stopSource_def cancelAnimationFrame_def startPlayback_def
        scheduleTick_def requestAnimationFrame_def Let_def)
  have b: "playingRecordingId (tick 10 normalSession) = None \<and>
   audioContextRef (tick 10 normalSession) = Some 0 \<and>
   contexts (tick 10 normalSession) = [Running] \<and>
   audioBufferRef (tick 10 normalSession) = Some \<lparr>bufferDuration = 10\<rparr>"
    by (simp add: tick_def normalSession_value fireFrame_def
        updatePlayback_def awaitsResume_def
        stopPlayback_def stopSource_def cancelAnimationFrame_def Let_def)
  have w: "wellFormed suspendedLoopSession"
    by (simp add: suspendedLoopSession_def loopSession_value wellFormed_def refsInStore_def
        ownsLive_def)
  have c: "isPlaying ''A'' (Some True) suspendedLoopSession \<and>
   animationFrameRef suspendedLoopSession \<in> pendingFrames suspendedLoopSession \<and>
   currentTime (tick 3 suspendedLoopSession) = 5 \<and>
   sourceNodeRef (tick 3 suspendedLoopSession) = Some 1 \<and>
   isPlaying ''A'' (Some True) (tick 3 suspendedLoopSession) \<and>
   pendingFrames (tick 3 suspendedLoopSession) = {}"
    by (simp add: suspendedLoopSession_def isPlaying_def tick_def loopSession_value
        fireFrame_def updatePlayback_def awaitsResume_def
        stopPlayback_def stopSource_def cancelAnimationFrame_def startPlayback_def
        scheduleTick_def requestAnimationFrame_def Let_def)
  from a b w c show ?thesis by blast
qed

end
